theory Spec2Isabelle
  imports Main "HOL-Library.Multiset" "HOL-Library.Log_Nat"
begin

section \<open>Data model of the review client (lib/api.ts)\<close>

text \<open>
  The interfaces of \<^verbatim>\<open>lib/api.ts\<close> become records. Several interfaces share
  field names (\<^verbatim>\<open>id\<close>, \<^verbatim>\<open>content\<close>, \<^verbatim>\<open>persona_id\<close>, ...), so every field
  carries a short prefix naming its interface. Line numbers are JavaScript numbers, that
  is doubles; the server sends integers, and the model holds the integer-valued doubles as
  \<^typ>\<open>int\<close> (arithmetic on them rounds as \<open>js_round\<close> below says).
\<close>

record Document =
  d_id :: string
  d_title :: string
  d_description :: "string option"
  d_content :: string
  d_is_archived :: bool
  d_created_at :: string
  d_updated_at :: string
  d_review_count :: int

record Persona =
  p_id :: string
  p_name :: string
  p_description :: "string option"
  p_system_prompt :: string
  p_tone :: string
  p_focus_areas :: "string list"
  p_color :: string

record Comment =
  c_id :: string
  c_content :: string
  c_persona_id :: string
  c_persona_name :: string
  c_persona_color :: string
  c_start_line :: int
  c_end_line :: int
  c_created_at :: string

record ReviewSummary =
  r_id :: string
  r_document_id :: string
  r_persona_ids :: "string list"
  r_status :: string
  r_created_at :: string
  r_completed_at :: "string option"
  r_comment_count :: int

record MetaCommentSource =
  s_persona_id :: string
  s_persona_name :: string
  s_persona_color :: string
  s_original_content :: string

record MetaComment =
  mc_id :: string
  mc_content :: string
  mc_start_line :: int
  mc_end_line :: int
  mc_sources :: "MetaCommentSource list"
  mc_category :: string
  mc_priority :: string
  mc_created_at :: string

section \<open>HTTP layer (lib/api.ts)\<close>

text \<open>
  A thrown JavaScript value: whether it is an \<^verbatim>\<open>instanceof Error\<close>, its \<^verbatim>\<open>name\<close>
  and its \<^verbatim>\<open>message\<close>. \<^verbatim>\<open>new Error(msg)\<close> has the name \<^verbatim>\<open>Error\<close>.
\<close>

record js_error =
  e_is_Error :: bool
  e_name :: string
  e_message :: string

definition new_Error :: "string \<Rightarrow> js_error" where
  "new_Error msg = \<lparr>e_is_Error = True, e_name = ''Error'', e_message = msg\<rparr>"

datatype http_method = GET | POST

record request =
  rq_method :: http_method
  rq_url :: string

text \<open>
  What \<^verbatim>\<open>await fetch(...)\<close> gives: the promise rejects (network failure, abort), or
  there is a response with its \<^verbatim>\<open>ok\<close> flag and the outcome of \<^verbatim>\<open>res.json()\<close>,
  which itself throws on a body that is not JSON.
\<close>

datatype 'a fetch_result =
  Rejected js_error
| Response bool "js_error + 'a"

text \<open>
  The network as the client sees it: one typed view of \<^verbatim>\<open>fetch\<close> for each type the
  client reads the JSON body as. \<^verbatim>\<open>API_BASE_URL\<close> comes from \<^verbatim>\<open>lib/config\<close>, which is
  not among the sources, and is the parameter \<open>base\<close> of every function. Each function
  returns the requests it issues, in order, together with its result; a thrown error is
  \<open>Inl\<close>.
\<close>

record network =
  n_document :: "request \<Rightarrow> Document fetch_result"
  n_personas :: "request \<Rightarrow> Persona list fetch_result"
  n_reviews :: "request \<Rightarrow> ReviewSummary list fetch_result"
  n_comments :: "request \<Rightarrow> Comment list fetch_result"
  n_meta :: "request \<Rightarrow> MetaComment list fetch_result"

definition fetchDocument ::
  "network \<Rightarrow> string \<Rightarrow> string \<Rightarrow> request list \<times> (js_error + Document)" where
  "fetchDocument net base ident =
     (let req = \<lparr>rq_method = GET, rq_url = base @ ''/api/v1/documents/'' @ ident\<rparr> in
      ([req],
       case n_document net req of
         Rejected e \<Rightarrow> Inl e
       | Response ok js \<Rightarrow>
           if \<not> ok then Inl (new_Error ''Failed to fetch document'') else js))"

definition fetchPersonas ::
  "network \<Rightarrow> string \<Rightarrow> request list \<times> (js_error + Persona list)" where
  "fetchPersonas net base =
     (let req = \<lparr>rq_method = GET, rq_url = base @ ''/api/v1/personas/''\<rparr> in
      ([req],
       case n_personas net req of
         Rejected e \<Rightarrow> Inl e
       | Response ok js \<Rightarrow>
           if \<not> ok then Inl (new_Error ''Failed to fetch personas'') else js))"

definition fetchReviews ::
  "network \<Rightarrow> string \<Rightarrow> string \<Rightarrow> request list \<times> (js_error + ReviewSummary list)" where
  "fetchReviews net base docId =
     (let req = \<lparr>rq_method = GET,
                 rq_url = base @ ''/api/v1/reviews/'' @ docId @ ''/reviews''\<rparr> in
      ([req],
       case n_reviews net req of
         Rejected e \<Rightarrow> Inl e
       | Response ok js \<Rightarrow>
           if \<not> ok then Inl (new_Error ''Failed to fetch reviews'') else js))"

definition fetchLatestComments ::
  "network \<Rightarrow> string \<Rightarrow> string \<Rightarrow> request list \<times> (js_error + Comment list)" where
  "fetchLatestComments net base docId =
     (let req = \<lparr>rq_method = GET,
                 rq_url = base @ ''/api/v1/reviews/'' @ docId @ ''/reviews/latest/comments''\<rparr> in
      ([req],
       case n_comments net req of
         Rejected e \<Rightarrow> Inl e
       | Response ok js \<Rightarrow> if \<not> ok then Inr [] else js))"

definition meta_url :: "string \<Rightarrow> string \<Rightarrow> string \<Rightarrow> string" where
  "meta_url base docId reviewId =
     base @ ''/api/v1/reviews/'' @ docId @ ''/reviews/'' @ reviewId @ ''/meta''"

definition synthesizeMetaReview ::
  "network \<Rightarrow> string \<Rightarrow> string \<Rightarrow> string \<Rightarrow> request list \<times> (js_error + MetaComment list)" where
  "synthesizeMetaReview net base docId reviewId =
     (let req = \<lparr>rq_method = POST, rq_url = meta_url base docId reviewId\<rparr> in
      ([req],
       case n_meta net req of
         Rejected e \<Rightarrow> Inl e
       | Response ok js \<Rightarrow>
           if \<not> ok then Inl (new_Error ''Failed to synthesize meta review'') else js))"

definition fetchMetaComments ::
  "network \<Rightarrow> string \<Rightarrow> string \<Rightarrow> string \<Rightarrow> request list \<times> (js_error + MetaComment list)" where
  "fetchMetaComments net base docId reviewId =
     (let req = \<lparr>rq_method = GET, rq_url = meta_url base docId reviewId\<rparr> in
      ([req],
       case n_meta net req of
         Rejected e \<Rightarrow> Inl e
       | Response ok js \<Rightarrow> if \<not> ok then Inr [] else js))"


section \<open>The review event stream (startReviewStream)\<close>

text \<open>
  The object handed to \<^verbatim>\<open>onEvent\<close>: \<^verbatim>\<open>type\<close> and the optional fields of the
  callback's parameter type. The client does not validate it: it is whatever
  \<^verbatim>\<open>JSON.parse\<close> returned.
\<close>

record event =
  ev_type :: string
  ev_persona_id :: "string option"
  ev_persona_name :: "string option"
  ev_persona_color :: "string option"
  ev_status :: "string option"
  ev_comment :: "Comment option"
  ev_total_comments :: "int option"
  ev_review_id :: "string option"

datatype callback = OnEvent event | OnError js_error

text \<open>\<^verbatim>\<open>s.split('\n')\<close>: never empty, and the last element is what follows the last newline.\<close>

fun split_nl :: "string \<Rightarrow> string list" where
  "split_nl [] = [[]]"
| "split_nl (c # cs) =
     (if c = CHR 0x0A then [] # split_nl cs
      else (case split_nl cs of [] \<Rightarrow> [[c]] | l # ls \<Rightarrow> (c # l) # ls))"

text \<open>
  The body of the \<^verbatim>\<open>for (const line of lines)\<close> loop. \<open>parse\<close> stands for
  \<^verbatim>\<open>JSON.parse\<close> followed by the callback's first property access: \<open>None\<close> when
  either throws inside the inner \<^verbatim>\<open>try\<close>, whose \<^verbatim>\<open>catch\<close> skips the line.
\<close>

definition dispatch_line :: "(string \<Rightarrow> event option) \<Rightarrow> string \<Rightarrow> callback list" where
  "dispatch_line parse line =
     (if take 6 line = ''data: ''
      then (case parse (drop 6 line) of None \<Rightarrow> [] | Some data \<Rightarrow> [OnEvent data])
      else [])"

text \<open>
  The outer \<^verbatim>\<open>catch\<close>: the error is reported unless it is not an \<^verbatim>\<open>Error\<close> or its
  name is \<^verbatim>\<open>AbortError\<close>.
\<close>

definition catch_stream :: "js_error \<Rightarrow> callback list" where
  "catch_stream err =
     (if e_is_Error err \<and> e_name err \<noteq> ''AbortError'' then [OnError err] else [])"

text \<open>
  What one \<^verbatim>\<open>await reader.read()\<close> gives: a decoded chunk, the end of the stream, or a
  rejection. Aborting the controller makes the pending read (or the pending fetch) reject
  with an error named \<^verbatim>\<open>AbortError\<close>. The \<^verbatim>\<open>while (true)\<close> loop is driven by these
  results: it consumes one per iteration and leaves the loop at the end of the stream or at
  a rejection, so it is a recursion on the list of results the environment delivers; when
  the list is used up the next read is still pending and no callback fires. The function
  returns the callbacks fired, in order. Chunks are the texts \<^verbatim>\<open>decoder.decode\<close> returns.
\<close>

datatype read_result = Chunk string | Done | ReadRejects js_error

fun read_loop ::
  "(string \<Rightarrow> event option) \<Rightarrow> string \<Rightarrow> read_result list \<Rightarrow> callback list" where
  "read_loop parse buffer [] = []"
| "read_loop parse buffer (Done # rs) = []"
| "read_loop parse buffer (ReadRejects err # rs) = catch_stream err"
| "read_loop parse buffer (Chunk v # rs) =
     (let lines = split_nl (buffer @ v) in
      concat (map (dispatch_line parse) (butlast lines)) @ read_loop parse (last lines) rs)"

text \<open>
  The outcome of the initial \<^verbatim>\<open>fetch\<close>: a rejection, or a response with its \<^verbatim>\<open>ok\<close>
  flag and whether \<^verbatim>\<open>res.body?.getReader()\<close> gave a reader.
\<close>

datatype stream_response = FetchRejects js_error | FetchResponds bool bool

definition startReviewStream ::
  "(string \<Rightarrow> event option) \<Rightarrow> stream_response \<Rightarrow> read_result list \<Rightarrow> callback list" where
  "startReviewStream parse res reads =
     (case res of
        FetchRejects err \<Rightarrow> catch_stream err
      | FetchResponds ok has_reader \<Rightarrow>
          if \<not> ok then catch_stream (new_Error ''Failed to start review'')
          else if \<not> has_reader then catch_stream (new_Error ''No response body'')
          else read_loop parse [] reads)"

text \<open>The events a chunk sequence delivers when the stream stays open.\<close>

definition delivered :: "(string \<Rightarrow> event option) \<Rightarrow> string list \<Rightarrow> callback list" where
  "delivered parse chunks = read_loop parse [] (map Chunk chunks)"

fun is_OnError :: "callback \<Rightarrow> bool" where
  "is_OnError (OnError err) = True"
| "is_OnError (OnEvent ev) = False"

section \<open>State of the document page (DocumentDetailPage)\<close>

datatype ViewMode = Meta | Individual

text \<open>
  The interface \<^verbatim>\<open>PersonaStatus\<close> declares strings, and \<^verbatim>\<open>'queued' | 'running' |
  'completed'\<close> for the status, but the page fills it from the event with non-null
  assertions and an \<^verbatim>\<open>as\<close> cast, which are erased at run time: the record holds
  whatever the event carried, \<^verbatim>\<open>undefined\<close> (\<open>None\<close>) included.
\<close>

record PersonaStatus =
  ps_persona_id :: "string option"
  ps_persona_name :: "string option"
  ps_persona_color :: "string option"
  ps_status :: "string option"

text \<open>
  The \<^verbatim>\<open>useState\<close> cells and the \<^verbatim>\<open>abortRef\<close> of the component. The status map is
  a JavaScript \<^verbatim>\<open>Map\<close>, kept as an association list in insertion order; the
  \<^verbatim>\<open>AbortController\<close> in \<^verbatim>\<open>abortRef\<close> is identified by a number. Hover and
  connector-line state, which only affects styling, is left out.
\<close>

record page_state =
  document :: "Document option"
  personas :: "Persona list"
  selectedPersonaIds :: "string list"
  comments :: "Comment list"
  personaStatuses :: "(string option \<times> PersonaStatus) list"
  isReviewing :: bool
  error :: "string option"
  showPersonaPanel :: bool
  filterPersona :: "string option"
  viewMode :: ViewMode
  metaComments :: "MetaComment list"
  isSynthesizing :: bool
  currentReviewId :: "string option"
  abortRef :: "nat option"

definition initial_state :: page_state where
  "initial_state =
     \<lparr>document = None, personas = [], selectedPersonaIds = [], comments = [],
      personaStatuses = [], isReviewing = False, error = None, showPersonaPanel = False,
      filterPersona = None, viewMode = Meta, metaComments = [], isSynthesizing = False,
      currentReviewId = None, abortRef = None\<rparr>"

text \<open>Truthiness of a \<^verbatim>\<open>string | null\<close> value: neither null nor the empty string.\<close>

fun truthy :: "string option \<Rightarrow> bool" where
  "truthy None = False"
| "truthy (Some s) = (s \<noteq> [])"

text \<open>\<^verbatim>\<open>Map.prototype.set\<close>: an existing key keeps its place, a new key goes last.\<close>

fun Map_set :: "'k \<Rightarrow> 'v \<Rightarrow> ('k \<times> 'v) list \<Rightarrow> ('k \<times> 'v) list" where
  "Map_set k v [] = [(k, v)]"
| "Map_set k v ((k', v') # m) = (if k' = k then (k, v) # m else (k', v') # Map_set k v m)"

text \<open>What a handler does to the outside world, in order.\<close>

datatype effect = Http request | Abort nat | OpenStream nat string "string list"

text \<open>
  \<^verbatim>\<open>triggerMetaSynthesis\<close>. The model runs the \<^verbatim>\<open>await\<close> to its end at once; in the
  browser the two halves are separate turns of the event loop.
\<close>

definition triggerMetaSynthesis ::
  "network \<Rightarrow> string \<Rightarrow> string \<Rightarrow> string \<Rightarrow> page_state \<Rightarrow> effect list \<times> page_state" where
  "triggerMetaSynthesis net base docId reviewId s =
     (let s1 = s\<lparr>isSynthesizing := True\<rparr>;
          (reqs, result) = synthesizeMetaReview net base docId reviewId;
          s2 = (case result of
                  Inr res \<Rightarrow> s1\<lparr>metaComments := res, viewMode := Meta\<rparr>
                | Inl err \<Rightarrow> s1)
      in (map Http reqs, s2\<lparr>isSynthesizing := False\<rparr>))"

text \<open>The two callbacks \<^verbatim>\<open>doReview\<close> passes to \<^verbatim>\<open>startReviewStream\<close>.\<close>

definition onEvent ::
  "network \<Rightarrow> string \<Rightarrow> string \<Rightarrow> event \<Rightarrow> page_state \<Rightarrow> effect list \<times> page_state" where
  "onEvent net base docId ev s =
     (let s1 = (if ev_type ev = ''persona_status''
                then s\<lparr>personaStatuses :=
                        Map_set (ev_persona_id ev)
                          \<lparr>ps_persona_id = ev_persona_id ev,
                           ps_persona_name = ev_persona_name ev,
                           ps_persona_color = ev_persona_color ev,
                           ps_status = ev_status ev\<rparr>
                          (personaStatuses s)\<rparr>
                else s);
          s2 = (if ev_type ev = ''comment''
                then (case ev_comment ev of
                        None \<Rightarrow> s1
                      | Some c \<Rightarrow> s1\<lparr>comments := comments s1 @ [c]\<rparr>)
                else s1)
      in if ev_type ev = ''done''
         then (let s3 = s2\<lparr>isReviewing := False\<rparr> in
               case ev_review_id ev of
                 None \<Rightarrow> ([], s3)
               | Some rid \<Rightarrow>
                   if rid = [] then ([], s3)
                   else triggerMetaSynthesis net base docId rid
                          (s3\<lparr>currentReviewId := Some rid\<rparr>))
         else ([], s2))"

definition onError :: "js_error \<Rightarrow> page_state \<Rightarrow> page_state" where
  "onError err s = s\<lparr>error := Some (e_message err), isReviewing := False\<rparr>"

text \<open>
  \<^verbatim>\<open>doReview\<close>: abort the stream in flight, reset the review state, open a new stream
  under a new controller.
\<close>

definition doReview :: "string \<Rightarrow> string list \<Rightarrow> page_state \<Rightarrow> effect list \<times> page_state" where
  "doReview docId personaIds s =
     (let aborts = (case abortRef s of None \<Rightarrow> [] | Some k \<Rightarrow> [Abort k]);
          n = (case abortRef s of None \<Rightarrow> 0 | Some k \<Rightarrow> Suc k)
      in (aborts @ [OpenStream n docId personaIds],
          s\<lparr>isReviewing := True, comments := [], metaComments := [], personaStatuses := [],
            showPersonaPanel := False, currentReviewId := None, viewMode := Individual,
            abortRef := Some n\<rparr>))"

text \<open>The callbacks of a stream applied to the page, in the order they fire.\<close>

fun apply_callbacks ::
  "network \<Rightarrow> string \<Rightarrow> string \<Rightarrow> callback list \<Rightarrow> page_state \<Rightarrow> effect list \<times> page_state" where
  "apply_callbacks net base docId [] s = ([], s)"
| "apply_callbacks net base docId (OnEvent ev # cbs) s =
     (let (fx, s') = onEvent net base docId ev s;
          (fx', s'') = apply_callbacks net base docId cbs s'
      in (fx @ fx', s''))"
| "apply_callbacks net base docId (OnError err # cbs) s =
     (let (fx', s'') = apply_callbacks net base docId cbs (onError err s)
      in (fx', s''))"

text \<open>
  \<^verbatim>\<open>togglePersona\<close>, the new selection as a function of the old one. The document
  page computes \<^verbatim>\<open>prev.includes(id) ? prev.filter(p => p !== id) : [...prev, id]\<close>;
  \<^verbatim>\<open>PersonaPanel\<close> hands the same two lists to \<^verbatim>\<open>onSelectionChange\<close> in an
  \<^verbatim>\<open>if\<close>/\<^verbatim>\<open>else\<close>.
\<close>

definition togglePersona :: "string \<Rightarrow> string list \<Rightarrow> string list" where
  "togglePersona pid prev =
     (if pid \<in> set prev then filter (\<lambda>p. p \<noteq> pid) prev else prev @ [pid])"

text \<open>
  The effect that loads the page. The four requests of \<^verbatim>\<open>Promise.all\<close> are all
  issued. If one fails, \<^verbatim>\<open>Promise.all\<close> rejects with the rejection that settles first
  and the \<^verbatim>\<open>catch\<close> stores its message: \<open>settled\<close> lists the positions of the four
  promises in the array in the order in which they settle (positions it does not name
  settle afterwards, in array order). The inner \<^verbatim>\<open>try\<close> swallows a failure of
  \<^verbatim>\<open>fetchMetaComments\<close>.
\<close>

definition load_then ::
  "network \<Rightarrow> string \<Rightarrow> string \<Rightarrow> bool \<Rightarrow> Document \<Rightarrow> Persona list \<Rightarrow> Comment list \<Rightarrow>
   ReviewSummary list \<Rightarrow> page_state \<Rightarrow> effect list \<times> page_state" where
  "load_then net base docId autoReview doc p existingComments reviews s =
     (let s1 = s\<lparr>document := Some doc, personas := p, selectedPersonaIds := map p_id p\<rparr> in
      if existingComments \<noteq> [] \<and> \<not> autoReview
      then (let s2 = s1\<lparr>comments := existingComments\<rparr> in
            case find (\<lambda>r. r_status r = ''completed'') reviews of
              None \<Rightarrow> ([], s2)
            | Some completedReview \<Rightarrow>
                (let s3 = s2\<lparr>currentReviewId := Some (r_id completedReview)\<rparr>;
                     (reqs, cached) = fetchMetaComments net base docId (r_id completedReview)
                 in (map Http reqs,
                     case cached of
                       Inl err \<Rightarrow> s3
                     | Inr res \<Rightarrow> if res \<noteq> [] then s3\<lparr>metaComments := res\<rparr> else s3)))
      else ([], s1))"

fun rejection :: "js_error + 'a \<Rightarrow> js_error option" where
  "rejection (Inl err) = Some err"
| "rejection (Inr v) = None"

definition first_rejection :: "nat list \<Rightarrow> js_error option list \<Rightarrow> js_error option" where
  "first_rejection settled rejections =
     (case find (\<lambda>i. i < length rejections \<and> rejections ! i \<noteq> None)
             (settled @ [0..<length rejections]) of
        None \<Rightarrow> None
      | Some i \<Rightarrow> rejections ! i)"

definition load_page ::
  "network \<Rightarrow> nat list \<Rightarrow> string \<Rightarrow> string \<Rightarrow> bool \<Rightarrow> page_state \<Rightarrow>
   effect list \<times> page_state" where
  "load_page net settled base docId autoReview s =
     (let (q1, doc) = fetchDocument net base docId;
          (q2, p) = fetchPersonas net base;
          (q3, existingComments) = fetchLatestComments net base docId;
          (q4, reviews) = fetchReviews net base docId;
          reqs = map Http (q1 @ q2 @ q3 @ q4);
          failed =
            (reqs,
             case first_rejection settled
                    [rejection doc, rejection p, rejection existingComments, rejection reviews] of
               None \<Rightarrow> s
             | Some err \<Rightarrow> s\<lparr>error := Some (e_message err)\<rparr>)
      in case doc of
           Inl err \<Rightarrow> failed
         | Inr d \<Rightarrow>
             (case p of
                Inl err \<Rightarrow> failed
              | Inr ps \<Rightarrow>
                  (case existingComments of
                     Inl err \<Rightarrow> failed
                   | Inr cs \<Rightarrow>
                       (case reviews of
                          Inl err \<Rightarrow> failed
                        | Inr rs \<Rightarrow>
                            (let (fx, s') = load_then net base docId autoReview d ps cs rs s
                             in (reqs @ fx, s'))))))"

section \<open>What the page displays\<close>

text \<open>
  \<^verbatim>\<open>Array.prototype.sort\<close> with a comparator. The engine's algorithm is not part of
  the repository; ECMAScript specifies the sort as stable and as ordering by a consistent
  comparator, which is what this insertion sort driven by the same comparator does.
\<close>

fun insert_by :: "('a \<Rightarrow> 'a \<Rightarrow> int) \<Rightarrow> 'a \<Rightarrow> 'a list \<Rightarrow> 'a list" where
  "insert_by cmp x [] = [x]"
| "insert_by cmp x (y # ys) = (if cmp x y \<le> 0 then x # y # ys else y # insert_by cmp x ys)"

definition Array_sort :: "('a \<Rightarrow> 'a \<Rightarrow> int) \<Rightarrow> 'a list \<Rightarrow> 'a list" where
  "Array_sort cmp xs = foldr (insert_by cmp) xs []"

text \<open>
  \<^verbatim>\<open>[...comments].filter(c => !filterPersona || c.persona_id === filterPersona)
  .sort((a, b) => a.start_line - b.start_line)\<close>
\<close>

definition sortedComments :: "string option \<Rightarrow> Comment list \<Rightarrow> Comment list" where
  "sortedComments fp cs =
     Array_sort (\<lambda>a b. c_start_line a - c_start_line b)
       (filter (\<lambda>c. \<not> truthy fp \<or> Some (c_persona_id c) = fp) cs)"

definition sortedMetaComments :: "MetaComment list \<Rightarrow> MetaComment list" where
  "sortedMetaComments ms = Array_sort (\<lambda>a b. mc_start_line a - mc_start_line b) ms"

record highlight =
  h_commentId :: string
  h_color :: string

definition PRIORITY_COLORS :: "(string \<times> string) list" where
  "PRIORITY_COLORS =
     [(''critical'', ''#ef4444''), (''high'', ''#f97316''),
      (''medium'', ''#eab308''), (''low'', ''#6b7280'')]"

text \<open>\<^verbatim>\<open>PRIORITY_COLORS[mc.priority] || PRIORITY_COLORS.medium\<close>\<close>

definition priority_color :: "string \<Rightarrow> string" where
  "priority_color pr = (case map_of PRIORITY_COLORS pr of None \<Rightarrow> ''#eab308'' | Some col \<Rightarrow> col)"

text \<open>
  Arithmetic on line numbers is arithmetic on doubles. \<open>js_round\<close> gives the double
  nearest to an integer, ties to the even significand (53 bits); up to \<open>2 ^ 53\<close> in
  magnitude every integer is a double. \<^verbatim>\<open>line++\<close> is \<open>js_round (line + 1)\<close>: it
  counts exactly below \<open>2 ^ 53\<close> and no longer advances at \<open>2 ^ 53\<close>.
\<close>

definition js_round :: "int \<Rightarrow> int" where
  "js_round x =
     (if \<bar>x\<bar> \<le> 2 ^ 53 then x
      else (let e = nat (bitlen \<bar>x\<bar> - 53);
                q = \<bar>x\<bar> div 2 ^ e;
                r = \<bar>x\<bar> mod 2 ^ e;
                q' = (if 2 ^ e < 2 * r \<or> (2 * r = 2 ^ e \<and> odd q) then q + 1 else q)
            in sgn x * (q' * 2 ^ e)))"

text \<open>
  One pass of \<^verbatim>\<open>if (!highlights.has(line)) highlights.set(line, []);
  highlights.get(line)!.push(h)\<close>, and the loop
  \<^verbatim>\<open>for (let line = start_line; line <= end_line; line++)\<close> around it. The loop is
  bounded by the comment alone and need not end: \<open>None\<close> is the loop that runs forever.
\<close>

definition push_highlight ::
  "highlight \<Rightarrow> int \<Rightarrow> (int \<rightharpoonup> highlight list) \<Rightarrow> (int \<rightharpoonup> highlight list)" where
  "push_highlight h line m = m(line \<mapsto> (case m line of None \<Rightarrow> [] | Some hs \<Rightarrow> hs) @ [h])"

partial_function (option) highlight_range ::
  "highlight \<Rightarrow> int \<Rightarrow> int \<Rightarrow> (int \<rightharpoonup> highlight list) \<Rightarrow> (int \<rightharpoonup> highlight list) option" where
  "highlight_range h line end_line m =
     (if line \<le> end_line
      then highlight_range h (js_round (line + 1)) end_line (push_highlight h line m)
      else Some m)"

text \<open>\<^verbatim>\<open>forEach\<close> with a body that may not return.\<close>

fun forEach :: "('a \<Rightarrow> 's \<Rightarrow> 's option) \<Rightarrow> 'a list \<Rightarrow> 's \<Rightarrow> 's option" where
  "forEach body [] m = Some m"
| "forEach body (x # xs) m =
     (case body x m of None \<Rightarrow> None | Some m' \<Rightarrow> forEach body xs m')"

definition comment_highlight :: "Comment \<Rightarrow> highlight" where
  "comment_highlight c = \<lparr>h_commentId = c_id c, h_color = c_persona_color c\<rparr>"

definition meta_highlight :: "MetaComment \<Rightarrow> highlight" where
  "meta_highlight mc = \<lparr>h_commentId = mc_id mc, h_color = priority_color (mc_priority mc)\<rparr>"

definition lineHighlights ::
  "ViewMode \<Rightarrow> MetaComment list \<Rightarrow> string option \<Rightarrow> Comment list \<Rightarrow>
   (int \<rightharpoonup> highlight list) option" where
  "lineHighlights vm metas fp cs =
     (if vm = Meta \<and> metas \<noteq> []
      then forEach (\<lambda>mc. highlight_range (meta_highlight mc) (mc_start_line mc) (mc_end_line mc))
             metas Map.empty
      else forEach (\<lambda>c. highlight_range (comment_highlight c) (c_start_line c) (c_end_line c))
             (if truthy fp then filter (\<lambda>c. Some (c_persona_id c) = fp) cs else cs) Map.empty)"

text \<open>\<^verbatim>\<open>highlights.get(lineNum) || []\<close>\<close>

definition lineHighs :: "(int \<rightharpoonup> highlight list) \<Rightarrow> int \<Rightarrow> highlight list" where
  "lineHighs m lineNum = (case m lineNum of None \<Rightarrow> [] | Some hs \<Rightarrow> hs)"

text \<open>
  What the component returns. Its body first computes
  \<^verbatim>\<open>const highlights = lineHighlights()\<close>, so when that does not return nothing is
  rendered (\<open>None\<close>). Otherwise it returns the error
  panel when \<^verbatim>\<open>error\<close> is truthy, the skeleton while there is no document, and else the
  page with each line of the document beside its highlights, the status chips and the
  comment panel of the current view mode.
\<close>

datatype panel = MetaPanel "MetaComment list" | IndividualPanel "Comment list"

record main_view =
  v_lines :: "(string \<times> highlight list) list"
  v_statuses :: "PersonaStatus list"
  v_panel :: panel

datatype view = ErrorView string | LoadingView | MainView main_view

definition contentLines :: "Document option \<Rightarrow> string list" where
  "contentLines doc = (case doc of None \<Rightarrow> [] | Some d \<Rightarrow> split_nl (d_content d))"

definition highlights :: "page_state \<Rightarrow> (int \<rightharpoonup> highlight list) option" where
  "highlights s = lineHighlights (viewMode s) (metaComments s) (filterPersona s) (comments s)"

definition render :: "page_state \<Rightarrow> view option" where
  "render s =
     (case highlights s of
        None \<Rightarrow> None
      | Some hl \<Rightarrow>
          Some
            (if truthy (error s)
             then ErrorView (case error s of None \<Rightarrow> [] | Some msg \<Rightarrow> msg)
             else if document s = None then LoadingView
             else MainView
               \<lparr>v_lines =
                  map (\<lambda>(idx, line). (line, lineHighs hl (int idx)))
                    (enumerate 0 (contentLines (document s))),
                v_statuses = map snd (personaStatuses s),
                v_panel =
                  (if viewMode s = Meta then MetaPanel (sortedMetaComments (metaComments s))
                   else IndividualPanel (sortedComments (filterPersona s) (comments s)))\<rparr>))"

text \<open>
  The comments a render lists, and the document lines it shows with their highlights;
  a render that does not return shows nothing.
\<close>

fun visible_comments :: "view option \<Rightarrow> Comment list" where
  "visible_comments None = []"
| "visible_comments (Some (ErrorView msg)) = []"
| "visible_comments (Some LoadingView) = []"
| "visible_comments (Some (MainView m)) =
     (case v_panel m of MetaPanel ms \<Rightarrow> [] | IndividualPanel cs \<Rightarrow> cs)"


text \<open>
  A range on which the loop counts exactly: it is empty, or it lies where every integer
  is a double.
\<close>

definition countable_range :: "int \<Rightarrow> int \<Rightarrow> bool" where
  "countable_range a b = (b < a \<or> (- (2 ^ 53) \<le> a \<and> b < 2 ^ 53))"

definition countable_comment :: "Comment \<Rightarrow> bool" where
  "countable_comment c = countable_range (c_start_line c) (c_end_line c)"

section \<open>Reading an event sequence\<close>

text \<open>
  The page after a sequence of events has been handed to \<^verbatim>\<open>onEvent\<close>, the comments
  that the sequence carries, and the most recent \<^verbatim>\<open>persona_status\<close> event for a key
  of the status map.
\<close>

definition after_events ::
  "network \<Rightarrow> string \<Rightarrow> string \<Rightarrow> event list \<Rightarrow> page_state \<Rightarrow> page_state" where
  "after_events net base docId evs s = snd (apply_callbacks net base docId (map OnEvent evs) s)"

fun received_comments :: "event list \<Rightarrow> Comment list" where
  "received_comments [] = []"
| "received_comments (ev # evs) =
     (if ev_type ev = ''comment''
      then (case ev_comment ev of None \<Rightarrow> [] | Some c \<Rightarrow> [c])
      else []) @ received_comments evs"

fun latest_status :: "string option \<Rightarrow> event list \<Rightarrow> event option" where
  "latest_status k [] = None"
| "latest_status k (ev # evs) =
     (case latest_status k evs of
        Some later \<Rightarrow> Some later
      | None \<Rightarrow> if ev_type ev = ''persona_status'' \<and> ev_persona_id ev = k then Some ev else None)"

definition status_of_event :: "event \<Rightarrow> PersonaStatus" where
  "status_of_event ev =
     \<lparr>ps_persona_id = ev_persona_id ev, ps_persona_name = ev_persona_name ev,
      ps_persona_color = ev_persona_color ev, ps_status = ev_status ev\<rparr>"

text \<open>
  Modelled from the spec: the status vocabulary of a \<^verbatim>\<open>persona_status\<close> payload. The
  server that emits the events is not among the sources, and the client types the field
  as an optional string; the spec gives the payload as
  \<^verbatim>\<open>{"type": "persona_status", "persona_id", "persona_name", "persona_color",
  "status": "queued"|"running"|"completed"|"failed"}\<close>.
\<close>

datatype persona_state = Queued | Running | Completed | Failed

fun status_name :: "persona_state \<Rightarrow> string" where
  "status_name Queued = ''queued''"
| "status_name Running = ''running''"
| "status_name Completed = ''completed''"
| "status_name Failed = ''failed''"

definition persona_status_event :: "string \<Rightarrow> string \<Rightarrow> string \<Rightarrow> persona_state \<Rightarrow> event" where
  "persona_status_event pid pname pcolor st =
     \<lparr>ev_type = ''persona_status'', ev_persona_id = Some pid, ev_persona_name = Some pname,
      ev_persona_color = Some pcolor, ev_status = Some (status_name st), ev_comment = None,
      ev_total_comments = None, ev_review_id = None\<rparr>"

text \<open>The other payloads of the stream, as the client receives them.\<close>

definition comment_event :: "Comment \<Rightarrow> event" where
  "comment_event c =
     \<lparr>ev_type = ''comment'', ev_persona_id = None, ev_persona_name = None,
      ev_persona_color = None, ev_status = None, ev_comment = Some c,
      ev_total_comments = None, ev_review_id = None\<rparr>"

definition error_event :: event where
  "error_event =
     \<lparr>ev_type = ''error'', ev_persona_id = None, ev_persona_name = None,
      ev_persona_color = None, ev_status = None, ev_comment = None,
      ev_total_comments = None, ev_review_id = None\<rparr>"

definition done_event :: "string \<Rightarrow> int \<Rightarrow> event" where
  "done_event rid n =
     \<lparr>ev_type = ''done'', ev_persona_id = None, ev_persona_name = None,
      ev_persona_color = None, ev_status = None, ev_comment = None,
      ev_total_comments = Some n, ev_review_id = Some rid\<rparr>"

text \<open>A request that did not succeed: no response, a response that is not ok, or no JSON.\<close>

fun request_failed :: "'a fetch_result \<Rightarrow> bool" where
  "request_failed (Rejected e) = True"
| "request_failed (Response ok (Inl e)) = True"
| "request_failed (Response ok (Inr v)) = (\<not> ok)"

text \<open>
  The requests that the functions of \<^verbatim>\<open>lib/api.ts\<close> sent among the effects of a
  handler, and those of them that are POSTs. (Opening a review stream is an effect of its
  own: \<^verbatim>\<open>startReviewStream\<close> posts to the review endpoint.)
\<close>

fun http_requests :: "effect list \<Rightarrow> request list" where
  "http_requests [] = []"
| "http_requests (Http req # fx) = req # http_requests fx"
| "http_requests (Abort k # fx) = http_requests fx"
| "http_requests (OpenStream k docId personaIds # fx) = http_requests fx"

definition posts :: "effect list \<Rightarrow> request list" where
  "posts fx = filter (\<lambda>req. rq_method req = POST) (http_requests fx)"

section \<open>The meta-synthesis engine\<close>

text \<open>
  Modelled from the spec: the Meta-Synthesis Engine. It runs on the server, whose code is
  not among the sources; the client only receives its \<^verbatim>\<open>MetaComment\<close>s. The spec
  gives its shape: comments are grouped into clusters by line-range overlap (two comments
  cluster together if their \<^verbatim>\<open>[start_line, end_line]\<close> intervals intersect, or are
  within a small proximity window) combined with semantic similarity judged by the
  completion model; each cluster is reduced to one MetaComment whose range is the minimum
  and maximum of its sources' ranges, whose category and priority come from the fixed
  enumerations, and whose sources are the comments of the cluster; a comment that clusters
  with no other becomes a singleton. The window \<open>w\<close>, the similarity judgement
  \<open>similar\<close> and the model's verdict on a cluster \<open>judge\<close> are parameters, since
  the spec leaves them open.
\<close>

datatype category = Structure | Clarity | Technical | Security | Accessibility

datatype priority = Critical | High | Medium | Low

fun category_name :: "category \<Rightarrow> string" where
  "category_name Structure = ''structure''"
| "category_name Clarity = ''clarity''"
| "category_name Technical = ''technical''"
| "category_name Security = ''security''"
| "category_name Accessibility = ''accessibility''"

fun priority_name :: "priority \<Rightarrow> string" where
  "priority_name Critical = ''critical''"
| "priority_name High = ''high''"
| "priority_name Medium = ''medium''"
| "priority_name Low = ''low''"

definition near :: "int \<Rightarrow> Comment \<Rightarrow> Comment \<Rightarrow> bool" where
  "near w a b = (c_start_line a \<le> c_end_line b + w \<and> c_start_line b \<le> c_end_line a + w)"

definition related :: "int \<Rightarrow> (Comment \<Rightarrow> Comment \<Rightarrow> bool) \<Rightarrow> Comment \<Rightarrow> Comment \<Rightarrow> bool" where
  "related w similar a b = (near w a b \<and> similar a b)"

definition touches ::
  "int \<Rightarrow> (Comment \<Rightarrow> Comment \<Rightarrow> bool) \<Rightarrow> Comment \<Rightarrow> Comment list \<Rightarrow> bool" where
  "touches w similar c cl = list_ex (related w similar c) cl"

text \<open>
  A new comment joins the clusters it is related to, which thereby become one cluster;
  related to none, it starts a cluster of its own.
\<close>

definition add_comment ::
  "int \<Rightarrow> (Comment \<Rightarrow> Comment \<Rightarrow> bool) \<Rightarrow> Comment list list \<Rightarrow> Comment \<Rightarrow> Comment list list" where
  "add_comment w similar cls c =
     filter (\<lambda>cl. \<not> touches w similar c cl) cls
       @ [concat (filter (touches w similar c) cls) @ [c]]"

definition clusters ::
  "int \<Rightarrow> (Comment \<Rightarrow> Comment \<Rightarrow> bool) \<Rightarrow> Comment list \<Rightarrow> Comment list list" where
  "clusters w similar cs = foldl (add_comment w similar) [] cs"

definition source_of :: "Comment \<Rightarrow> MetaCommentSource" where
  "source_of c =
     \<lparr>s_persona_id = c_persona_id c, s_persona_name = c_persona_name c,
      s_persona_color = c_persona_color c, s_original_content = c_content c\<rparr>"

fun range_start :: "Comment list \<Rightarrow> int" where
  "range_start [] = 0"
| "range_start [c] = c_start_line c"
| "range_start (c # cs) = min (c_start_line c) (range_start cs)"

fun range_end :: "Comment list \<Rightarrow> int" where
  "range_end [] = 0"
| "range_end [c] = c_end_line c"
| "range_end (c # cs) = max (c_end_line c) (range_end cs)"

definition reduce_cluster ::
  "(Comment list \<Rightarrow> string \<times> category \<times> priority) \<Rightarrow> (nat \<Rightarrow> string) \<Rightarrow> string \<Rightarrow>
   nat \<times> Comment list \<Rightarrow> MetaComment" where
  "reduce_cluster judge ident now icl =
     (case icl of (i, cl) \<Rightarrow>
        (case judge cl of (text, cat, pri) \<Rightarrow>
           \<lparr>mc_id = ident i, mc_content = text, mc_start_line = range_start cl,
            mc_end_line = range_end cl, mc_sources = map source_of cl,
            mc_category = category_name cat, mc_priority = priority_name pri,
            mc_created_at = now\<rparr>))"

definition synthesize ::
  "int \<Rightarrow> (Comment \<Rightarrow> Comment \<Rightarrow> bool) \<Rightarrow> (Comment list \<Rightarrow> string \<times> category \<times> priority) \<Rightarrow>
   (nat \<Rightarrow> string) \<Rightarrow> string \<Rightarrow> Comment list \<Rightarrow> MetaComment list" where
  "synthesize w similar judge ident now cs =
     map (reduce_cluster judge ident now) (enumerate 0 (clusters w similar cs))"

section \<open>The server's validation of line ranges\<close>








section \<open>The server's synthesis cache\<close>

text \<open>
  Modelled from the spec: the cache of synthesis results and the two requests of the meta
  endpoint. The server is not among the sources. The spec: the synthesis result for a
  given \<^verbatim>\<open>(document_id, review_id)\<close> is computed at most once unless explicitly
  re-requested; a read returns the previously stored result rather than recomputing; the
  endpoints are "trigger synthesis for a review id" and "fetch cached synthesis for a
  review id". The cache is keyed by the URL of the meta endpoint, which names the
  document and the review; \<open>sv_runs\<close> counts the syntheses computed; the engine's result
  may differ from one run to the next (its wording may vary), so it depends on the run.
  A POST triggers a synthesis and stores its result, a GET answers what is stored (the
  empty list when nothing is).
\<close>

record server =
  sv_cache :: "string \<rightharpoonup> MetaComment list"
  sv_runs :: nat

definition serve_meta ::
  "(string \<Rightarrow> nat \<Rightarrow> MetaComment list) \<Rightarrow> request \<Rightarrow> server \<Rightarrow>
   MetaComment list fetch_result \<times> server" where
  "serve_meta engine req sv =
     (case rq_method req of
        GET \<Rightarrow>
          (Response True (Inr (case sv_cache sv (rq_url req) of None \<Rightarrow> [] | Some ms \<Rightarrow> ms)),
           sv)
      | POST \<Rightarrow>
          (let ms = engine (rq_url req) (sv_runs sv) in
           (Response True (Inr ms),
            sv\<lparr>sv_cache := (sv_cache sv)(rq_url req \<mapsto> ms), sv_runs := Suc (sv_runs sv)\<rparr>)))"

text \<open>
  The network a client sees while the server is in the state \<open>sv\<close> (the other
  endpoints answer as \<open>others\<close> does), and the state of the server after it has
  served the requests a handler sent. Every POST counts as a request for a synthesis (the
  functions of \<^verbatim>\<open>lib/api.ts\<close> modelled here send no other), and no GET changes the
  state.
\<close>

definition network_of ::
  "(string \<Rightarrow> nat \<Rightarrow> MetaComment list) \<Rightarrow> network \<Rightarrow> server \<Rightarrow> network" where
  "network_of engine others sv = others\<lparr>n_meta := (\<lambda>req. fst (serve_meta engine req sv))\<rparr>"

definition served ::
  "(string \<Rightarrow> nat \<Rightarrow> MetaComment list) \<Rightarrow> request list \<Rightarrow> server \<Rightarrow> server" where
  "served engine reqs sv = fold (\<lambda>req sv'. snd (serve_meta engine req sv')) reqs sv"

section \<open>Sample data\<close>

text \<open>A comment of a persona on the lines \<open>a\<close> to \<open>b\<close>, and a document of eight lines.\<close>

definition comment_at :: "string \<Rightarrow> string \<Rightarrow> int \<Rightarrow> int \<Rightarrow> Comment" where
  "comment_at cid pid a b =
     \<lparr>c_id = cid, c_content = ''Consider rewording.'', c_persona_id = pid,
      c_persona_name = pid, c_persona_color = ''#6366f1'', c_start_line = a, c_end_line = b,
      c_created_at = ''2026-01-01T00:00:00Z''\<rparr>"

definition eight_lines :: Document where
  "eight_lines =
     \<lparr>d_id = ''doc1'', d_title = ''Plan'', d_description = None,
      d_content = ''a'' @ [CHR 0x0A] @ ''b'' @ [CHR 0x0A] @ ''c'' @ [CHR 0x0A] @ ''d''
        @ [CHR 0x0A] @ ''e'' @ [CHR 0x0A] @ ''f'' @ [CHR 0x0A] @ ''g'' @ [CHR 0x0A] @ ''h'',
      d_is_archived = False, d_created_at = ''2026-01-01T00:00:00Z'',
      d_updated_at = ''2026-01-01T00:00:00Z'', d_review_count = 0\<rparr>"

text \<open>The page showing that document, a review just started from it.\<close>

definition reviewing_eight_lines :: page_state where
  "reviewing_eight_lines =
     snd (doReview ''doc1'' [''security''] (initial_state\<lparr>document := Some eight_lines\<rparr>))"

text \<open>A server that answers every request with a 500 page that is not JSON.\<close>

definition unavailable :: network where
  "unavailable =
     \<lparr>n_document = (\<lambda>req. Response False (Inl (new_Error ''Unexpected token I in JSON''))),
      n_personas = (\<lambda>req. Response False (Inl (new_Error ''Unexpected token I in JSON''))),
      n_reviews = (\<lambda>req. Response False (Inl (new_Error ''Unexpected token I in JSON''))),
      n_comments = (\<lambda>req. Response False (Inl (new_Error ''Unexpected token I in JSON''))),
      n_meta = (\<lambda>req. Response False (Inl (new_Error ''Unexpected token I in JSON'')))\<rparr>"

text \<open>
  A stand-in for \<^verbatim>\<open>JSON.parse\<close> that knows two payloads, and the error a pending
  read rejects with when its controller is aborted.
\<close>

definition sample_parse :: "string \<Rightarrow> event option" where
  "sample_parse txt =
     (if txt = ''c1'' then Some (comment_event (comment_at ''c1'' ''security'' 2 2))
      else if txt = ''done'' then Some (done_event ''rev1'' 1)
      else None)"

definition abort_error :: js_error where
  "abort_error =
     \<lparr>e_is_Error = True, e_name = ''AbortError'', e_message = ''The user aborted a request.''\<rparr>"

text \<open>The error a read rejects with when the connection drops.\<close>

definition network_error :: js_error where
  "network_error = \<lparr>e_is_Error = True, e_name = ''TypeError'', e_message = ''network error''\<rparr>"

text \<open>
  A network that serves the eight-line document with one comment, one completed review
  and one stored meta comment for it; only a GET of the meta endpoint succeeds.
\<close>

definition stored_meta :: MetaComment where
  "stored_meta =
     \<lparr>mc_id = ''m1'', mc_content = ''Reword the introduction.'', mc_start_line = 2,
      mc_end_line = 3,
      mc_sources = [\<lparr>s_persona_id = ''security'', s_persona_name = ''security'',
                     s_persona_color = ''#6366f1'', s_original_content = ''Consider rewording.''\<rparr>],
      mc_category = ''clarity'', mc_priority = ''medium'',
      mc_created_at = ''2026-01-01T00:00:00Z''\<rparr>"

definition completed_review :: ReviewSummary where
  "completed_review =
     \<lparr>r_id = ''rev1'', r_document_id = ''doc1'', r_persona_ids = [''security''],
      r_status = ''completed'', r_created_at = ''2026-01-01T00:00:00Z'',
      r_completed_at = Some ''2026-01-01T00:01:00Z'', r_comment_count = 1\<rparr>"

definition serving :: network where
  "serving =
     \<lparr>n_document = (\<lambda>req. Response True (Inr eight_lines)),
      n_personas = (\<lambda>req. Response True (Inr [])),
      n_reviews = (\<lambda>req. Response True (Inr [completed_review])),
      n_comments = (\<lambda>req. Response True (Inr [comment_at ''c1'' ''security'' 2 2])),
      n_meta = (\<lambda>req. if rq_method req = GET then Response True (Inr [stored_meta])
                       else Response False (Inl (new_Error ''Unexpected token I in JSON'')))\<rparr>"


text \<open>
  A server that has synthesized nothing yet, and an engine whose first run gives the
  stored meta comment and whose later runs give a reworded one.
\<close>

definition fresh_server :: server where
  "fresh_server = \<lparr>sv_cache = Map.empty, sv_runs = 0\<rparr>"

definition sample_engine :: "string \<Rightarrow> nat \<Rightarrow> MetaComment list" where
  "sample_engine url run =
     (if run = 0 then [stored_meta]
      else [stored_meta\<lparr>mc_content := ''Rewrite the introduction.''\<rparr>])"

text \<open>A verdict and an id scheme to run the synthesis with.\<close>

definition sample_judge :: "Comment list \<Rightarrow> string \<times> category \<times> priority" where
  "sample_judge cl = (''Reword the introduction.'', Clarity, Medium)"

definition sample_ident :: "nat \<Rightarrow> string" where
  "sample_ident i = replicate (Suc i) CHR ''m''"

section \<open>Properties of the persona selection\<close>

lemma togglePersona_absent: "pid \<notin> set prev \<Longrightarrow> togglePersona pid prev = prev @ [pid]"
  by (simp add: togglePersona_def)

lemma togglePersona_present:
  "pid \<in> set prev \<Longrightarrow> togglePersona pid prev = filter (\<lambda>p. p \<noteq> pid) prev"
  by (simp add: togglePersona_def)

lemma filter_neq_absent: "pid \<notin> set xs \<Longrightarrow> filter (\<lambda>p. p \<noteq> pid) xs = xs"
  by (induction xs) auto

lemma togglePersona_twice_absent:
  "pid \<notin> set prev \<Longrightarrow> togglePersona pid (togglePersona pid prev) = prev"
  by (simp add: togglePersona_def filter_neq_absent)

lemma togglePersona_twice_present:
  "pid \<in> set prev \<Longrightarrow>
   togglePersona pid (togglePersona pid prev) = filter (\<lambda>p. p \<noteq> pid) prev @ [pid]"
  by (simp add: togglePersona_def)

lemma mset_filter_neq_distinct:
  "distinct xs \<Longrightarrow> pid \<in> set xs \<Longrightarrow> mset (filter (\<lambda>p. p \<noteq> pid) xs) + {#pid#} = mset xs"
proof (induction xs)
  case Nil
  then show ?case by simp
next
  case (Cons x xs)
  show ?case
  proof (cases "x = pid")
    case True
    with Cons.prems have "pid \<notin> set xs" by simp
    with True show ?thesis by (simp add: filter_neq_absent)
  next
    case False
    with Cons show ?thesis by simp
  qed
qed

text \<open>
  C10. On a duplicate-free selection, one application of \<^verbatim>\<open>togglePersona\<close> appends the
  persona exactly when it is absent and removes every occurrence when it is present, and
  two applications give back the original selection: the same selected set, again
  duplicate-free, with the same members counted with multiplicity (the list itself is
  unchanged when the persona was absent; a persona that was present moves to the end).
\<close>

theorem togglePersona_involution:
  assumes "distinct sel"
  shows "set (togglePersona pid (togglePersona pid sel)) = set sel
       \<and> distinct (togglePersona pid (togglePersona pid sel))
       \<and> mset (togglePersona pid (togglePersona pid sel)) = mset sel
       \<and> (pid \<notin> set sel \<longrightarrow> togglePersona pid sel = sel @ [pid]
            \<and> togglePersona pid (togglePersona pid sel) = sel)
       \<and> (pid \<in> set sel \<longrightarrow> pid \<notin> set (togglePersona pid sel)
            \<and> set (togglePersona pid sel) = set sel - {pid})"
proof (cases "pid \<in> set sel")
  case True
  have two: "togglePersona pid (togglePersona pid sel) = filter (\<lambda>p. p \<noteq> pid) sel @ [pid]"
    using True by (rule togglePersona_twice_present)
  have one: "togglePersona pid sel = filter (\<lambda>p. p \<noteq> pid) sel"
    using True by (rule togglePersona_present)
  have m: "mset (filter (\<lambda>p. p \<noteq> pid) sel @ [pid]) = mset sel"
    using mset_filter_neq_distinct [OF assms True] by simp
  have s: "set (filter (\<lambda>p. p \<noteq> pid) sel @ [pid]) = set sel"
    using True by auto
  have d: "distinct (filter (\<lambda>p. p \<noteq> pid) sel @ [pid])"
    using assms by simp
  have r: "set (filter (\<lambda>p. p \<noteq> pid) sel) = set sel - {pid}"
    by auto
  have "set (togglePersona pid (togglePersona pid sel)) = set sel"
    unfolding two by (rule s)
  moreover have "distinct (togglePersona pid (togglePersona pid sel))"
    unfolding two by (rule d)
  moreover have "mset (togglePersona pid (togglePersona pid sel)) = mset sel"
    unfolding two by (rule m)
  moreover have "pid \<notin> set (togglePersona pid sel)"
    unfolding one by simp
  moreover have "set (togglePersona pid sel) = set sel - {pid}"
    unfolding one by (rule r)
  ultimately show ?thesis
    using True by blast
next
  case False
  have two: "togglePersona pid (togglePersona pid sel) = sel"
    using False by (rule togglePersona_twice_absent)
  have one: "togglePersona pid sel = sel @ [pid]"
    using False by (rule togglePersona_absent)
  have "distinct (togglePersona pid (togglePersona pid sel))"
    unfolding two by (rule assms)
  then show ?thesis
    using False one two by simp
qed

theorem togglePersona_involution_witness:
  "distinct [''security'', ''architect'', ''exec'']
   \<and> togglePersona ''architect'' [''security'', ''architect'', ''exec'']
       = [''security'', ''exec'']
   \<and> togglePersona ''architect'' (togglePersona ''architect'' [''security'', ''architect'', ''exec''])
       = [''security'', ''exec'', ''architect'']
   \<and> set (togglePersona ''architect'' (togglePersona ''architect'' [''security'', ''architect'', ''exec'']))
       = set [''security'', ''architect'', ''exec'']
   \<and> togglePersona ''legal'' [''security'', ''architect'', ''exec'']
       = [''security'', ''architect'', ''exec'', ''legal'']
   \<and> togglePersona ''legal'' (togglePersona ''legal'' [''security'', ''architect'', ''exec''])
       = [''security'', ''architect'', ''exec'']"
  using togglePersona_involution [of "[''security'', ''architect'', ''exec'']" "''architect''"]
    togglePersona_involution [of "[''security'', ''architect'', ''exec'']" "''legal''"]
  by (simp add: togglePersona_def)

section \<open>Properties of the HTTP layer\<close>




section \<open>Properties of the stream consumer\<close>

lemma dispatch_line_no_error: "filter is_OnError (dispatch_line parse line) = []"
  unfolding dispatch_line_def
  by (cases "take 6 line = ''data: ''") (simp_all split: option.splits)

lemma dispatch_lines_no_error:
  "filter is_OnError (concat (map (dispatch_line parse) ls)) = []"
  by (induction ls) (simp_all add: dispatch_line_no_error)

lemma read_loop_chunks_no_error:
  "filter is_OnError (read_loop parse buffer (map Chunk chunks)) = []"
proof (induction chunks arbitrary: buffer)
  case Nil
  show ?case by simp
next
  case (Cons v vs)
  show ?case
    by (simp add: Let_def dispatch_lines_no_error Cons.IH)
qed

lemma read_loop_abort:
  "e_name err = ''AbortError'' \<Longrightarrow>
   read_loop parse buffer (map Chunk chunks @ ReadRejects err # rest)
     = read_loop parse buffer (map Chunk chunks)"
proof (induction chunks arbitrary: buffer)
  case Nil
  then show ?case by (simp add: catch_stream_def)
next
  case (Cons v vs)
  then show ?case by (simp add: Let_def)
qed

text \<open>
  C5. When the controller is aborted while a review stream is in flight, the pending read
  rejects with an \<^verbatim>\<open>AbortError\<close>: the callbacks fired are exactly the events of the
  chunks read before the abort, whatever the server would still have sent, none of them
  is \<^verbatim>\<open>onError\<close>, and an abort during the initial fetch fires no callback at all.
  A re-run aborts the controller of the stream in flight before it opens the new stream.
\<close>

theorem abort_stops_consumption:
  assumes "e_name err = ''AbortError''"
  shows "startReviewStream parse (FetchResponds True True)
           (map Chunk chunks @ ReadRejects err # rest) = delivered parse chunks
       \<and> filter is_OnError (startReviewStream parse (FetchResponds True True)
           (map Chunk chunks @ ReadRejects err # rest)) = []
       \<and> startReviewStream parse (FetchRejects err) reads = []
       \<and> (abortRef s = Some k \<longrightarrow>
            fst (doReview docId personaIds s) = [Abort k, OpenStream (Suc k) docId personaIds])"
proof -
  have a: "startReviewStream parse (FetchResponds True True)
           (map Chunk chunks @ ReadRejects err # rest) = delivered parse chunks"
    by (simp add: startReviewStream_def delivered_def read_loop_abort [OF assms])
  have b: "filter is_OnError (delivered parse chunks) = []"
    unfolding delivered_def by (rule read_loop_chunks_no_error)
  have c: "startReviewStream parse (FetchRejects err) reads = []"
    using assms by (simp add: startReviewStream_def catch_stream_def)
  have d: "abortRef s = Some k \<longrightarrow>
            fst (doReview docId personaIds s) = [Abort k, OpenStream (Suc k) docId personaIds]"
    by (simp add: doReview_def)
  from a b c d show ?thesis by simp
qed

theorem abort_stops_consumption_witness:
  "e_name abort_error = ''AbortError''
   \<and> startReviewStream sample_parse (FetchResponds True True)
         (map Chunk [''data: c1'' @ [CHR 0x0A] @ ''data: do'']
          @ ReadRejects abort_error # [Chunk (''ne'' @ [CHR 0x0A]), Done])
       = [OnEvent (comment_event (comment_at ''c1'' ''security'' 2 2))]
   \<and> startReviewStream sample_parse (FetchResponds True True)
         [Chunk (''data: c1'' @ [CHR 0x0A] @ ''data: do''), Chunk (''ne'' @ [CHR 0x0A]), Done]
       = [OnEvent (comment_event (comment_at ''c1'' ''security'' 2 2)),
          OnEvent (done_event ''rev1'' 1)]
   \<and> startReviewStream sample_parse (FetchRejects abort_error) [Chunk ''data: c1'', Done] = []
   \<and> abortRef reviewing_eight_lines = Some 0
   \<and> fst (doReview ''doc1'' [''security''] reviewing_eight_lines)
       = [Abort 0, OpenStream (Suc 0) ''doc1'' [''security'']]"
proof -
  have r: "abortRef reviewing_eight_lines = Some 0"
    by (simp add: reviewing_eight_lines_def doReview_def initial_state_def)
  show ?thesis
    using abort_stops_consumption
      [where err = abort_error and parse = sample_parse
         and chunks = "[''data: c1'' @ [CHR 0x0A] @ ''data: do'']"
         and rest = "[Chunk (''ne'' @ [CHR 0x0A]), Done]"
         and reads = "[Chunk ''data: c1'', Done]"
         and s = reviewing_eight_lines and k = 0 and docId = "''doc1''"
         and personaIds = "[''security'']"]
    by (simp add: r abort_error_def delivered_def startReviewStream_def dispatch_line_def
        sample_parse_def Let_def)
qed

section \<open>Properties of the displayed comment list\<close>

lemma mset_insert_by: "mset (insert_by cmp x xs) = add_mset x (mset xs)"
  by (induction xs) simp_all

lemma mset_Array_sort: "mset (Array_sort cmp xs) = mset xs"
  unfolding Array_sort_def by (induction xs) (simp_all add: mset_insert_by)

lemma set_insert_by: "set (insert_by cmp x xs) = insert x (set xs)"
  by (induction xs) auto

lemma sorted_insert_by:
  "sorted (map f xs) \<Longrightarrow> sorted (map f (insert_by (\<lambda>a b. f a - f b) x xs))"
  for f :: "'a \<Rightarrow> int"
proof (induction xs)
  case Nil
  show ?case by simp
next
  case (Cons y ys)
  show ?case
  proof (cases "f x - f y \<le> 0")
    case True
    with Cons.prems show ?thesis by auto
  next
    case False
    with Cons show ?thesis by (auto simp: set_insert_by)
  qed
qed

lemma sorted_Array_sort: "sorted (map f (Array_sort (\<lambda>a b. f a - f b) xs))"
  for f :: "'a \<Rightarrow> int"
  unfolding Array_sort_def by (induction xs) (simp_all add: sorted_insert_by)

lemma sorted_same_mset: "mset xs = mset ys \<Longrightarrow> sorted xs \<Longrightarrow> sorted ys \<Longrightarrow> xs = ys"
  for xs :: "int list"
  using properties_for_sort by metis

text \<open>
  C4. Whatever the order in which the comment events arrived and whatever the persona
  filter, the list displayed is in non-decreasing order of \<^verbatim>\<open>start_line\<close>; it holds
  exactly the comments that pass the filter, and two arrival orders of the same comments
  display the same sequence of start lines.
\<close>

theorem sortedComments_sorted:
  "sorted (map c_start_line (sortedComments fp cs))
   \<and> mset (sortedComments fp cs)
       = mset (filter (\<lambda>c. \<not> truthy fp \<or> Some (c_persona_id c) = fp) cs)
   \<and> (mset cs' = mset cs \<longrightarrow>
        map c_start_line (sortedComments fp cs') = map c_start_line (sortedComments fp cs))"
proof -
  have a: "sorted (map c_start_line (sortedComments fp xs))" for xs
    unfolding sortedComments_def by (rule sorted_Array_sort)
  have b: "mset (sortedComments fp xs)
       = mset (filter (\<lambda>c. \<not> truthy fp \<or> Some (c_persona_id c) = fp) xs)" for xs
    unfolding sortedComments_def by (rule mset_Array_sort)
  have c: "map c_start_line (sortedComments fp cs') = map c_start_line (sortedComments fp cs)"
    if eq: "mset cs' = mset cs"
  proof (rule sorted_same_mset)
    have "mset (map c_start_line (sortedComments fp cs'))
          = image_mset c_start_line (mset (sortedComments fp cs'))" by simp
    also have "\<dots> = image_mset c_start_line (mset (sortedComments fp cs))"
      unfolding b mset_filter eq ..
    finally show "mset (map c_start_line (sortedComments fp cs'))
        = mset (map c_start_line (sortedComments fp cs))" by simp
  qed (rule a)+
  from a b c show ?thesis by blast
qed

theorem sortedComments_sorted_witness:
  "mset [comment_at ''c3'' ''security'' 0 3, comment_at ''c2'' ''architect'' 2 2,
         comment_at ''c1'' ''security'' 5 6]
     = mset [comment_at ''c1'' ''security'' 5 6, comment_at ''c2'' ''architect'' 2 2,
             comment_at ''c3'' ''security'' 0 3]
   \<and> map c_start_line (sortedComments None
         [comment_at ''c1'' ''security'' 5 6, comment_at ''c2'' ''architect'' 2 2,
          comment_at ''c3'' ''security'' 0 3]) = [0, 2, 5]
   \<and> map c_start_line (sortedComments (Some ''security'')
         [comment_at ''c1'' ''security'' 5 6, comment_at ''c2'' ''architect'' 2 2,
          comment_at ''c3'' ''security'' 0 3]) = [0, 5]
   \<and> sorted (map c_start_line (sortedComments None
         [comment_at ''c3'' ''security'' 0 3, comment_at ''c2'' ''architect'' 2 2,
          comment_at ''c1'' ''security'' 5 6]))"
  using sortedComments_sorted [of None
      "[comment_at ''c3'' ''security'' 0 3, comment_at ''c2'' ''architect'' 2 2,
        comment_at ''c1'' ''security'' 5 6]"
      "[comment_at ''c1'' ''security'' 5 6, comment_at ''c2'' ''architect'' 2 2,
        comment_at ''c3'' ''security'' 0 3]"]
  by (simp add: sortedComments_def Array_sort_def comment_at_def)

section \<open>Properties of the line loop\<close>

lemma js_round_exact: "\<bar>x\<bar> \<le> 2 ^ 53 \<Longrightarrow> js_round x = x"
  by (simp add: js_round_def)

lemma highlight_range_done: "end_line < line \<Longrightarrow> highlight_range h line end_line m = Some m"
  by (subst highlight_range.simps) simp

lemma highlight_range_step:
  "line \<le> end_line \<Longrightarrow>
   highlight_range h line end_line m
     = highlight_range h (js_round (line + 1)) end_line (push_highlight h line m)"
  by (subst highlight_range.simps) simp

lemma highlight_range_countable:
  "countable_range a b \<Longrightarrow> highlight_range h a b m = Some (fold (push_highlight h) [a..b] m)"
proof (induction "nat (b + 1 - a)" arbitrary: a m)
  case 0
  then have "b < a" by simp
  then show ?case by (simp add: highlight_range_done)
next
  case (Suc k)
  then have le: "a \<le> b" by simp
  with Suc.prems have bounds: "- (2 ^ 53) \<le> a" "b < 2 ^ 53"
    by (auto simp: countable_range_def)
  then have "\<bar>a + 1\<bar> \<le> 2 ^ 53" using le by simp
  then have r: "js_round (a + 1) = a + 1" by (rule js_round_exact)
  have c: "countable_range (a + 1) b"
    using bounds by (simp add: countable_range_def)
  have k: "k = nat (b + 1 - (a + 1))" using Suc.hyps(2) by simp
  have "highlight_range h a b m = highlight_range h (a + 1) b (push_highlight h a m)"
    using highlight_range_step [OF le] by (simp only: r)
  also have "\<dots> = Some (fold (push_highlight h) [a + 1..b] (push_highlight h a m))"
    by (rule Suc.hyps(1) [OF k c])
  also have "fold (push_highlight h) [a + 1..b] (push_highlight h a m)
      = fold (push_highlight h) [a..b] m"
    using le by (simp add: upto_rec1)
  finally show ?case .
qed

lemma js_round_stuck: "js_round (2 ^ 53 + 1) = 2 ^ 53"
  by code_simp

lemma highlight_range_returns_not_at_limit:
  assumes "highlight_range h l e m = Some y"
  shows "\<not> (l = 2 ^ 53 \<and> e = 2 ^ 53)"
proof (rule highlight_range.raw_induct
    [where P = "\<lambda>h l e m y. \<not> (l = 2 ^ 53 \<and> e = 2 ^ 53)", OF _ assms])
  fix f :: "highlight \<Rightarrow> int \<Rightarrow> int \<Rightarrow> (int \<rightharpoonup> highlight list) \<Rightarrow> (int \<rightharpoonup> highlight list) option"
  fix h l e m y
  assume IH: "\<And>h l e m y. f h l e m = Some y \<Longrightarrow> \<not> (l = 2 ^ 53 \<and> e = 2 ^ 53)"
    and body: "(if l \<le> e then f h (js_round (l + 1)) e (push_highlight h l m) else Some m)
               = Some y"
  show "\<not> (l = 2 ^ 53 \<and> e = 2 ^ 53)"
  proof
    assume le: "l = 2 ^ 53 \<and> e = 2 ^ 53"
    with body have "f h (js_round (2 ^ 53 + 1)) (2 ^ 53) (push_highlight h (2 ^ 53) m) = Some y"
      by simp
    then have "f h (2 ^ 53) (2 ^ 53) (push_highlight h (2 ^ 53) m) = Some y"
      by (simp only: js_round_stuck)
    from IH [OF this] show False by simp
  qed
qed

lemma highlight_range_stuck: "highlight_range h (2 ^ 53) (2 ^ 53) m = None"
  using highlight_range_returns_not_at_limit [of h "2 ^ 53" "2 ^ 53" m]
  by (cases "highlight_range h (2 ^ 53) (2 ^ 53) m") auto

lemma forEach_total:
  "(\<And>x m. x \<in> set xs \<Longrightarrow> body x m = Some (g x m)) \<Longrightarrow> forEach body xs m = Some (fold g xs m)"
  by (induction xs arbitrary: m) simp_all

lemma forEach_stuck:
  "x \<in> set xs \<Longrightarrow> (\<And>m. body x m = None) \<Longrightarrow> forEach body xs m = None"
  by (induction xs arbitrary: m) (auto split: option.splits)

section \<open>Properties of the event handlers\<close>

lemma onEvent_comment:
  assumes "ev_type ev = ''comment''" and "ev_comment ev = Some c"
  shows "onEvent net base docId ev s = ([], s\<lparr>comments := comments s @ [c]\<rparr>)"
  using assms by (simp add: onEvent_def)


lemma triggerMetaSynthesis_keeps:
  "error (snd (triggerMetaSynthesis net base docId rid s)) = error s
   \<and> comments (snd (triggerMetaSynthesis net base docId rid s)) = comments s
   \<and> personaStatuses (snd (triggerMetaSynthesis net base docId rid s)) = personaStatuses s
   \<and> document (snd (triggerMetaSynthesis net base docId rid s)) = document s
   \<and> filterPersona (snd (triggerMetaSynthesis net base docId rid s)) = filterPersona s"
  by (simp add: triggerMetaSynthesis_def synthesizeMetaReview_def Let_def
      split: sum.splits fetch_result.splits)

lemma onEvent_keeps:
  "error (snd (onEvent net base docId ev s)) = error s
   \<and> document (snd (onEvent net base docId ev s)) = document s
   \<and> filterPersona (snd (onEvent net base docId ev s)) = filterPersona s"
  by (simp add: onEvent_def Let_def triggerMetaSynthesis_keeps split: option.splits)

lemma after_events_Nil: "after_events net base docId [] s = s"
  by (simp add: after_events_def)

lemma after_events_Cons:
  "after_events net base docId (ev # evs) s
     = after_events net base docId evs (snd (onEvent net base docId ev s))"
  by (simp add: after_events_def split: prod.splits)

lemma after_events_keeps:
  "error (after_events net base docId evs s) = error s
   \<and> document (after_events net base docId evs s) = document s
   \<and> filterPersona (after_events net base docId evs s) = filterPersona s"
  by (induction evs arbitrary: s) (simp_all add: after_events_Nil after_events_Cons onEvent_keeps)

lemma onEvent_comments:
  "comments (snd (onEvent net base docId ev s)) = comments s @ received_comments [ev]"
  by (simp add: onEvent_def Let_def triggerMetaSynthesis_keeps split: option.splits)

lemma after_events_comments:
  "comments (after_events net base docId evs s) = comments s @ received_comments evs"
proof (induction evs arbitrary: s)
  case Nil
  show ?case by (simp add: after_events_Nil)
next
  case (Cons ev evs)
  have "comments (after_events net base docId (ev # evs) s)
      = comments (snd (onEvent net base docId ev s)) @ received_comments evs"
    by (simp only: after_events_Cons Cons.IH)
  also have "\<dots> = comments s @ received_comments [ev] @ received_comments evs"
    by (simp only: onEvent_comments append_assoc)
  also have "received_comments [ev] @ received_comments evs = received_comments (ev # evs)"
    by simp
  finally show ?case .
qed

section \<open>Properties of the persona status map\<close>

lemma map_of_Map_set: "map_of (Map_set k v m) = (map_of m)(k \<mapsto> v)"
  by (induction m) auto

lemma onEvent_statuses:
  "map_of (personaStatuses (snd (onEvent net base docId ev s))) k
     = (if ev_type ev = ''persona_status'' \<and> ev_persona_id ev = k
        then Some (status_of_event ev) else map_of (personaStatuses s) k)"
  by (simp add: onEvent_def Let_def triggerMetaSynthesis_keeps map_of_Map_set
      status_of_event_def split: option.splits)

lemma after_events_statuses:
  "map_of (personaStatuses (after_events net base docId evs s)) k
     = (case latest_status k evs of
          None \<Rightarrow> map_of (personaStatuses s) k
        | Some ev \<Rightarrow> Some (status_of_event ev))"
proof (induction evs arbitrary: s)
  case Nil
  show ?case by (simp add: after_events_Nil)
next
  case (Cons ev evs)
  show ?case
    by (simp add: after_events_Cons Cons.IH onEvent_statuses split: option.splits)
qed

lemma latest_status_snoc:
  "ev_type ev = ''persona_status'' \<Longrightarrow> ev_persona_id ev = k
   \<Longrightarrow> latest_status k (evs @ [ev]) = Some ev"
  by (induction evs) simp_all

text \<open>
  C6. A \<^verbatim>\<open>persona_status\<close> payload carries one of the statuses queued, running,
  completed and failed, and after any sequence of events the status map of the page holds,
  for each persona id, the entry built from the most recent \<^verbatim>\<open>persona_status\<close> event
  for that id (and what it held before when there was none); in particular a persona
  whose last status event says failed is recorded as failed.
\<close>

theorem persona_status_map_tracks_latest_event:
  "ev_status (persona_status_event pid pname pcolor st)
       \<in> {Some ''queued'', Some ''running'', Some ''completed'', Some ''failed''}
   \<and> map_of (personaStatuses (after_events net base docId evs s)) k
       = (case latest_status k evs of
            None \<Rightarrow> map_of (personaStatuses s) k
          | Some ev \<Rightarrow> Some (status_of_event ev))
   \<and> map_of (personaStatuses (after_events net base docId
         (evs @ [persona_status_event pid pname pcolor Failed]) s)) (Some pid)
       = Some \<lparr>ps_persona_id = Some pid, ps_persona_name = Some pname,
               ps_persona_color = Some pcolor, ps_status = Some ''failed''\<rparr>"
proof -
  have a: "ev_status (persona_status_event pid pname pcolor st)
       \<in> {Some ''queued'', Some ''running'', Some ''completed'', Some ''failed''}"
    by (cases st) (simp_all add: persona_status_event_def)
  have l: "latest_status (Some pid) (evs @ [persona_status_event pid pname pcolor Failed])
       = Some (persona_status_event pid pname pcolor Failed)"
    by (rule latest_status_snoc) (simp_all add: persona_status_event_def)
  have c: "map_of (personaStatuses (after_events net base docId
         (evs @ [persona_status_event pid pname pcolor Failed]) s)) (Some pid)
       = Some \<lparr>ps_persona_id = Some pid, ps_persona_name = Some pname,
               ps_persona_color = Some pcolor, ps_status = Some ''failed''\<rparr>"
    unfolding after_events_statuses l
    by (simp add: status_of_event_def persona_status_event_def)
  from a c show ?thesis
    by (simp only: after_events_statuses simp_thms)
qed

section \<open>Properties of the highlights\<close>

lemma lineHighs_push:
  "lineHighs (push_highlight h line m) i
     = (if i = line then lineHighs m i @ [h] else lineHighs m i)"
  by (simp add: lineHighs_def push_highlight_def)

lemma lineHighs_fold_push:
  "distinct ls \<Longrightarrow>
   lineHighs (fold (push_highlight h) ls m) i
     = (if i \<in> set ls then lineHighs m i @ [h] else lineHighs m i)"
  by (induction ls arbitrary: m) (auto simp: lineHighs_push)

lemma lineHighs_range:
  "lineHighs (fold (push_highlight h) [a..b] m) i
     = lineHighs m i @ (if a \<le> i \<and> i \<le> b then [h] else [])"
  by (simp add: lineHighs_fold_push)

text \<open>The highlights of a line after the comments of a list have been entered.\<close>

lemma lineHighs_comments:
  "lineHighs (fold (\<lambda>c. fold (push_highlight (comment_highlight c))
                         [c_start_line c..c_end_line c]) cs m) i
     = lineHighs m i
       @ map comment_highlight (filter (\<lambda>c. c_start_line c \<le> i \<and> i \<le> c_end_line c) cs)"
  by (induction cs arbitrary: m) (simp_all add: lineHighs_range)

lemma forEach_comments:
  assumes "list_all countable_comment cs"
  shows "forEach (\<lambda>c. highlight_range (comment_highlight c) (c_start_line c) (c_end_line c)) cs m
     = Some (fold (\<lambda>c. fold (push_highlight (comment_highlight c))
                         [c_start_line c..c_end_line c]) cs m)"
proof (rule forEach_total)
  fix c m'
  assume "c \<in> set cs"
  with assms have "countable_range (c_start_line c) (c_end_line c)"
    by (simp add: list_all_iff countable_comment_def)
  then show "highlight_range (comment_highlight c) (c_start_line c) (c_end_line c) m'
      = Some (fold (push_highlight (comment_highlight c)) [c_start_line c..c_end_line c] m')"
    by (rule highlight_range_countable)
qed

text \<open>The comments whose ranges the page enters in the individual view.\<close>

lemma lineHighlights_individual:
  assumes "list_all countable_comment cs" and "vm = Individual \<or> metas = []"
  shows "\<exists>hl. lineHighlights vm metas fp cs = Some hl
       \<and> (\<forall>i. lineHighs hl i
             = map comment_highlight
                 (filter (\<lambda>c. c_start_line c \<le> i \<and> i \<le> c_end_line c)
                    (if truthy fp then filter (\<lambda>c. Some (c_persona_id c) = fp) cs else cs)))"
proof -
  let ?shown = "if truthy fp then filter (\<lambda>c. Some (c_persona_id c) = fp) cs else cs"
  let ?hl = "fold (\<lambda>c. fold (push_highlight (comment_highlight c))
                         [c_start_line c..c_end_line c]) ?shown Map.empty"
  from assms(1) have "list_all countable_comment ?shown"
    by (simp add: list_all_iff)
  then have "forEach (\<lambda>c. highlight_range (comment_highlight c) (c_start_line c) (c_end_line c))
      ?shown Map.empty = Some ?hl"
    by (rule forEach_comments)
  with assms(2) have "lineHighlights vm metas fp cs = Some ?hl"
    by (auto simp: lineHighlights_def)
  moreover have "lineHighs ?hl i
      = map comment_highlight (filter (\<lambda>c. c_start_line c \<le> i \<and> i \<le> c_end_line c) ?shown)" for i
    by (simp only: lineHighs_comments) (simp add: lineHighs_def)
  ultimately show ?thesis by blast
qed

section \<open>Properties of the validated comment stream\<close>

















section \<open>Properties of what is rendered\<close>

lemma highlights_individual:
  assumes "list_all countable_comment (comments s)"
      and "viewMode s = Individual \<or> metaComments s = []"
  shows "\<exists>hl. highlights s = Some hl"
  using lineHighlights_individual [OF assms, of "filterPersona s"]
  by (auto simp: highlights_def)

lemma render_error:
  "truthy (error s) \<Longrightarrow>
   render s = map_option (\<lambda>hl. ErrorView (case error s of None \<Rightarrow> [] | Some msg \<Rightarrow> msg))
                (highlights s)"
  by (simp add: render_def split: option.splits)

lemma visible_comments_error: "truthy (error s) \<Longrightarrow> visible_comments (render s) = []"
  by (simp add: render_def split: option.splits)

lemma visible_comments_individual:
  assumes "list_all countable_comment (comments s)" and "viewMode s = Individual"
      and "\<not> truthy (error s)" and "document s \<noteq> None"
  shows "visible_comments (render s) = sortedComments (filterPersona s) (comments s)"
proof -
  from highlights_individual [of s] assms(1,2) obtain hl where "highlights s = Some hl"
    by auto
  with assms(2-4) show ?thesis
    by (auto simp: render_def)
qed

section \<open>Properties of a failing stream\<close>

text \<open>
  C2, as the page implements it. When the stream fails, \<^verbatim>\<open>onError\<close> keeps the comments
  received so far in the state of the page, but it stores the message in \<^verbatim>\<open>error\<close>,
  and with a non-empty message the page renders the error panel alone, whatever events
  still arrive (when a line loop of its comments does not end it renders nothing at all):
  no comment is displayed. An event of type \<^verbatim>\<open>error\<close> inside the stream, on the other
  hand, changes nothing on the page.
\<close>

theorem stream_error_keeps_comments_but_shows_error_panel:
  "comments (onError err s) = comments s
   \<and> (e_message err \<noteq> [] \<longrightarrow>
        render (after_events net base docId evs (onError err s))
          = map_option (\<lambda>hl. ErrorView (e_message err))
              (highlights (after_events net base docId evs (onError err s)))
        \<and> visible_comments (render (after_events net base docId evs (onError err s))) = [])
   \<and> (ev_type ev = ''error'' \<longrightarrow> onEvent net base docId ev s = ([], s))"
proof -
  have c: "onEvent net base docId ev s = ([], s)" if "ev_type ev = ''error''"
    using that by (simp add: onEvent_def)
  have a: "comments (onError err s) = comments s"
    by (simp add: onError_def)
  have e: "error (after_events net base docId evs (onError err s)) = Some (e_message err)"
    by (simp add: after_events_keeps onError_def)
  have t: "truthy (error (after_events net base docId evs (onError err s)))"
    if "e_message err \<noteq> []"
    using that by (simp add: e)
  have b: "render (after_events net base docId evs (onError err s))
          = map_option (\<lambda>hl. ErrorView (e_message err))
              (highlights (after_events net base docId evs (onError err s)))"
    if "e_message err \<noteq> []"
    using render_error [OF t [OF that]] by (simp add: e)
  have d: "visible_comments (render (after_events net base docId evs (onError err s))) = []"
    if "e_message err \<noteq> []"
    by (rule visible_comments_error [OF t [OF that]])
  from a b c d show ?thesis by simp
qed

lemma countable_c1: "countable_comment (comment_at ''c1'' ''security'' 2 2)"
  by (simp add: countable_comment_def countable_range_def comment_at_def)

lemma reviewing_eight_lines_state:
  "comments reviewing_eight_lines = []" "truthy (error reviewing_eight_lines) = False"
  "document reviewing_eight_lines = Some eight_lines" "viewMode reviewing_eight_lines = Individual"
  "filterPersona reviewing_eight_lines = None" "metaComments reviewing_eight_lines = []"
  by (simp_all add: reviewing_eight_lines_def doReview_def initial_state_def)

theorem stream_error_keeps_comments_but_shows_error_panel_witness:
  "e_message network_error \<noteq> []
   \<and> comments (onError network_error
        (reviewing_eight_lines\<lparr>comments := [comment_at ''c1'' ''security'' 2 2]\<rparr>))
       = [comment_at ''c1'' ''security'' 2 2]
   \<and> render (after_events unavailable [] ''doc1'' [] (onError network_error
        (reviewing_eight_lines\<lparr>comments := [comment_at ''c1'' ''security'' 2 2]\<rparr>)))
       = Some (ErrorView ''network error'')
   \<and> ev_type error_event = ''error''
   \<and> onEvent unavailable [] ''doc1'' error_event
        (reviewing_eight_lines\<lparr>comments := [comment_at ''c1'' ''security'' 2 2]\<rparr>)
       = ([], reviewing_eight_lines\<lparr>comments := [comment_at ''c1'' ''security'' 2 2]\<rparr>)"
proof -
  let ?s = "reviewing_eight_lines\<lparr>comments := [comment_at ''c1'' ''security'' 2 2]\<rparr>"
  have t: "ev_type error_event = ''error''"
    by (simp add: error_event_def)
  have m: "e_message network_error = ''network error''"
    by (simp add: network_error_def)
  have "\<exists>hl. highlights (after_events unavailable [] ''doc1'' [] (onError network_error ?s))
      = Some hl"
    by (rule highlights_individual)
       (simp_all add: after_events_Nil onError_def countable_c1 reviewing_eight_lines_state)
  then obtain hl
    where hl: "highlights (after_events unavailable [] ''doc1'' [] (onError network_error ?s))
      = Some hl" ..
  show ?thesis
    using stream_error_keeps_comments_but_shows_error_panel
      [where err = network_error and s = ?s
         and net = unavailable and base = "[]" and docId = "''doc1''" and evs = "[]"
         and ev = error_event]
    by (simp add: t m hl)
qed

text \<open>
  Against C2 as stated: a stream that delivers one comment and then fails. Before the
  failure the comment is displayed; after it the page shows the error panel and no
  comment.
\<close>

theorem stream_error_hides_comments_counterexample:
  "startReviewStream sample_parse (FetchResponds True True)
       [Chunk (''data: c1'' @ [CHR 0x0A]), ReadRejects network_error]
     = [OnEvent (comment_event (comment_at ''c1'' ''security'' 2 2)), OnError network_error]
   \<and> visible_comments (render (snd (apply_callbacks unavailable [] ''doc1''
         [OnEvent (comment_event (comment_at ''c1'' ''security'' 2 2))] reviewing_eight_lines)))
       = [comment_at ''c1'' ''security'' 2 2]
   \<and> render (snd (apply_callbacks unavailable [] ''doc1''
         (startReviewStream sample_parse (FetchResponds True True)
            [Chunk (''data: c1'' @ [CHR 0x0A]), ReadRejects network_error])
         reviewing_eight_lines))
       = Some (ErrorView ''network error'')
   \<and> visible_comments (render (snd (apply_callbacks unavailable [] ''doc1''
         (startReviewStream sample_parse (FetchResponds True True)
            [Chunk (''data: c1'' @ [CHR 0x0A]), ReadRejects network_error])
         reviewing_eight_lines)))
       = []"
proof -
  let ?s = "reviewing_eight_lines\<lparr>comments := [comment_at ''c1'' ''security'' 2 2]\<rparr>"
  have tr: "startReviewStream sample_parse (FetchResponds True True)
       [Chunk (''data: c1'' @ [CHR 0x0A]), ReadRejects network_error]
     = [OnEvent (comment_event (comment_at ''c1'' ''security'' 2 2)), OnError network_error]"
    by (simp add: startReviewStream_def dispatch_line_def sample_parse_def Let_def
        catch_stream_def network_error_def)
  have ev: "onEvent unavailable [] ''doc1'' (comment_event (comment_at ''c1'' ''security'' 2 2))
        reviewing_eight_lines = ([], ?s)"
    by (simp add: onEvent_comment comment_event_def reviewing_eight_lines_state)
  have vis: "visible_comments (render ?s) = [comment_at ''c1'' ''security'' 2 2]"
    by (subst visible_comments_individual)
       (simp_all add: countable_c1 reviewing_eight_lines_state sortedComments_def Array_sort_def)
  have "\<exists>hl. highlights (onError network_error ?s) = Some hl"
    by (rule highlights_individual)
       (simp_all add: onError_def countable_c1 reviewing_eight_lines_state)
  then obtain hl where hl: "highlights (onError network_error ?s) = Some hl" ..
  have t: "truthy (error (onError network_error ?s))"
    by (simp add: onError_def network_error_def)
  have err: "render (onError network_error ?s) = Some (ErrorView ''network error'')"
    using render_error [OF t] by (simp add: hl) (simp add: onError_def network_error_def)
  have err': "visible_comments (render (onError network_error ?s)) = []"
    by (simp add: err)
  show ?thesis
    unfolding tr by (simp add: ev vis err err')
qed

section \<open>Properties of a failing synthesis\<close>

lemma synthesis_fails:
  assumes "request_failed (n_meta net \<lparr>rq_method = POST, rq_url = meta_url base docId rid\<rparr>)"
  shows "\<exists>err. snd (synthesizeMetaReview net base docId rid) = Inl err"
proof (cases "n_meta net \<lparr>rq_method = POST, rq_url = meta_url base docId rid\<rparr>")
  case (Rejected e)
  then show ?thesis by (simp add: synthesizeMetaReview_def)
next
  case (Response ok js)
  with assms show ?thesis
    by (cases js) (simp_all add: synthesizeMetaReview_def)
qed

lemma synthesizeMetaReview_request:
  "fst (synthesizeMetaReview net base docId rid)
     = [\<lparr>rq_method = POST, rq_url = meta_url base docId rid\<rparr>]"
  by (simp add: synthesizeMetaReview_def Let_def)

lemma triggerMetaSynthesis_failed:
  assumes "\<And>req. rq_method req = POST \<Longrightarrow> request_failed (n_meta net req)"
  shows "triggerMetaSynthesis net base docId rid s
     = ([Http \<lparr>rq_method = POST, rq_url = meta_url base docId rid\<rparr>],
        s\<lparr>isSynthesizing := False\<rparr>)"
proof -
  have "request_failed (n_meta net \<lparr>rq_method = POST, rq_url = meta_url base docId rid\<rparr>)"
    by (rule assms) simp
  from synthesis_fails [OF this] obtain err
    where "snd (synthesizeMetaReview net base docId rid) = Inl err" ..
  with synthesizeMetaReview_request [of net base docId rid]
  have "synthesizeMetaReview net base docId rid
      = ([\<lparr>rq_method = POST, rq_url = meta_url base docId rid\<rparr>], Inl err)"
    by (metis prod.collapse)
  then show ?thesis
    by (simp add: triggerMetaSynthesis_def)
qed

lemma onEvent_failed_view:
  assumes "\<And>req. rq_method req = POST \<Longrightarrow> request_failed (n_meta net req)"
  shows "viewMode (snd (onEvent net base docId ev s)) = viewMode s
       \<and> metaComments (snd (onEvent net base docId ev s)) = metaComments s"
  by (simp add: onEvent_def Let_def triggerMetaSynthesis_failed [OF assms] split: option.splits)

lemma after_events_failed_view:
  assumes "\<And>req. rq_method req = POST \<Longrightarrow> request_failed (n_meta net req)"
  shows "viewMode (after_events net base docId evs s) = viewMode s
       \<and> metaComments (after_events net base docId evs s) = metaComments s"
  by (induction evs arbitrary: s)
     (simp_all add: after_events_Nil after_events_Cons onEvent_failed_view [OF assms])

text \<open>
  C8. When the meta-synthesis request fails (no response, a response that is not ok, or
  a body that is not JSON), \<^verbatim>\<open>triggerMetaSynthesis\<close> issues its one POST request and
  changes nothing but the synthesizing flag. So after a review is started and any
  sequence of events has arrived, the page holds exactly the comments received, its error
  is what it was before, it has no meta comments, the view mode is the individual one,
  and a page that was not in its error state displays the received comments (their line
  loops ending, as they do for ranges where line numbers count exactly).
\<close>

theorem synthesis_failure_keeps_individual_view:
  assumes "\<And>req. rq_method req = POST \<Longrightarrow> request_failed (n_meta net req)"
  shows "triggerMetaSynthesis net base docId rid s
           = ([Http \<lparr>rq_method = POST, rq_url = meta_url base docId rid\<rparr>],
              s\<lparr>isSynthesizing := False\<rparr>)
       \<and> comments (after_events net base docId evs (snd (doReview docId personaIds s)))
           = received_comments evs
       \<and> error (after_events net base docId evs (snd (doReview docId personaIds s))) = error s
       \<and> metaComments (after_events net base docId evs (snd (doReview docId personaIds s))) = []
       \<and> viewMode (after_events net base docId evs (snd (doReview docId personaIds s)))
           = Individual
       \<and> (\<not> truthy (error s) \<and> document s \<noteq> None
            \<and> list_all countable_comment (received_comments evs) \<longrightarrow>
            visible_comments (render
              (after_events net base docId evs (snd (doReview docId personaIds s))))
            = sortedComments (filterPersona s) (received_comments evs))"
proof -
  let ?s0 = "snd (doReview docId personaIds s)"
  let ?s' = "after_events net base docId evs ?s0"
  have s0: "comments ?s0 = [] \<and> error ?s0 = error s \<and> metaComments ?s0 = []
      \<and> viewMode ?s0 = Individual \<and> document ?s0 = document s
      \<and> filterPersona ?s0 = filterPersona s"
    by (simp add: doReview_def Let_def)
  have c: "comments ?s' = received_comments evs"
    by (simp add: after_events_comments s0)
  have e: "error ?s' = error s" and d: "document ?s' = document s"
    and f: "filterPersona ?s' = filterPersona s"
    by (simp_all add: after_events_keeps s0)
  have v: "viewMode ?s' = Individual" and m: "metaComments ?s' = []"
    by (simp_all add: after_events_failed_view [OF assms] s0)
  have r: "visible_comments (render ?s') = sortedComments (filterPersona s) (received_comments evs)"
    if "\<not> truthy (error s)" "document s \<noteq> None"
       "list_all countable_comment (received_comments evs)"
    using visible_comments_individual [of ?s'] that by (simp add: c e d f v)
  from c e v m r triggerMetaSynthesis_failed [OF assms] show ?thesis
    by blast
qed

theorem synthesis_failure_keeps_individual_view_witness:
  "(\<forall>req. request_failed (n_meta unavailable req))
   \<and> list_all countable_comment (received_comments
         [comment_event (comment_at ''c1'' ''security'' 2 2), done_event ''rev1'' 1])
   \<and> viewMode (after_events unavailable [] ''doc1''
         [comment_event (comment_at ''c1'' ''security'' 2 2), done_event ''rev1'' 1]
         (snd (doReview ''doc1'' [''security''] (initial_state\<lparr>document := Some eight_lines\<rparr>))))
       = Individual
   \<and> error (after_events unavailable [] ''doc1''
         [comment_event (comment_at ''c1'' ''security'' 2 2), done_event ''rev1'' 1]
         (snd (doReview ''doc1'' [''security''] (initial_state\<lparr>document := Some eight_lines\<rparr>))))
       = None
   \<and> visible_comments (render (after_events unavailable [] ''doc1''
         [comment_event (comment_at ''c1'' ''security'' 2 2), done_event ''rev1'' 1]
         (snd (doReview ''doc1'' [''security''] (initial_state\<lparr>document := Some eight_lines\<rparr>)))))
       = [comment_at ''c1'' ''security'' 2 2]"
proof -
  have h: "request_failed (n_meta unavailable req)" for req
    by (simp add: unavailable_def)
  have rc: "received_comments
         [comment_event (comment_at ''c1'' ''security'' 2 2), done_event ''rev1'' 1]
       = [comment_at ''c1'' ''security'' 2 2]"
    by (simp add: comment_event_def done_event_def)
  have l: "list_all countable_comment (received_comments
         [comment_event (comment_at ''c1'' ''security'' 2 2), done_event ''rev1'' 1])"
    unfolding rc by (simp add: countable_c1)
  have r: "sortedComments None [comment_at ''c1'' ''security'' 2 2]
       = [comment_at ''c1'' ''security'' 2 2]"
    by (simp add: sortedComments_def Array_sort_def)
  have i: "\<not> truthy (error (initial_state\<lparr>document := Some eight_lines\<rparr>))
       \<and> document (initial_state\<lparr>document := Some eight_lines\<rparr>) \<noteq> None
       \<and> filterPersona (initial_state\<lparr>document := Some eight_lines\<rparr>) = None
       \<and> error (initial_state\<lparr>document := Some eight_lines\<rparr>) = None"
    by (simp add: initial_state_def)
  show ?thesis
    using synthesis_failure_keeps_individual_view
      [where net = unavailable and base = "[]" and docId = "''doc1''"
         and personaIds = "[''security'']" and rid = "''rev1''"
         and s = "initial_state\<lparr>document := Some eight_lines\<rparr>"
         and evs = "[comment_event (comment_at ''c1'' ''security'' 2 2), done_event ''rev1'' 1]",
       OF h]
    by (simp only: h l [unfolded rc] rc r i truthy.simps simp_thms)
qed

section \<open>Properties of the page load\<close>

text \<open>When one of the four initial requests fails, the message the page stores is the one of
  the request that was the first to fail in the order the requests settled.\<close>

lemma first_rejection_member:
  assumes "first_rejection settled rejections = Some err"
  shows "Some err \<in> set rejections"
proof -
  obtain i where f: "find (\<lambda>i. i < length rejections \<and> rejections ! i \<noteq> None)
                       (settled @ [0..<length rejections]) = Some i"
    and r: "rejections ! i = Some err"
    using assms unfolding first_rejection_def by (auto split: option.splits)
  from f have "i < length rejections"
    unfolding find_Some_iff by blast
  then have "rejections ! i \<in> set rejections" by (rule nth_mem)
  with r show ?thesis by simp
qed

lemma first_rejection_none:
  assumes "\<forall>r \<in> set rejections. r = None"
  shows "first_rejection settled rejections = None"
proof (cases "first_rejection settled rejections")
  case None then show ?thesis .
next
  case (Some err)
  then have "Some err \<in> set rejections" by (rule first_rejection_member)
  with assms show ?thesis by auto
qed

lemma load_page_failure:
  assumes "first_rejection settled
             [rejection (snd (fetchDocument net base docId)),
              rejection (snd (fetchPersonas net base)),
              rejection (snd (fetchLatestComments net base docId)),
              rejection (snd (fetchReviews net base docId))] = Some err"
  shows "error (snd (load_page net settled base docId autoReview s)) = Some (e_message err)"
proof -
  from assms have "Some err \<in> set [rejection (snd (fetchDocument net base docId)),
              rejection (snd (fetchPersonas net base)),
              rejection (snd (fetchLatestComments net base docId)),
              rejection (snd (fetchReviews net base docId))]"
    by (rule first_rejection_member)
  then have "\<not> (\<exists>d ps cs rs. snd (fetchDocument net base docId) = Inr d
      \<and> snd (fetchPersonas net base) = Inr ps
      \<and> snd (fetchLatestComments net base docId) = Inr cs
      \<and> snd (fetchReviews net base docId) = Inr rs)"
    by auto
  then show ?thesis
    using assms
    by (auto simp: load_page_def Let_def split_beta split: sum.splits)
qed

section \<open>Properties of the requests the page sends and the synthesis cache\<close>

lemma http_requests_map_Http: "http_requests (map Http reqs) = reqs"
  by (induction reqs) simp_all

lemma http_requests_append: "http_requests (fx @ fx') = http_requests fx @ http_requests fx'"
  by (induction fx rule: http_requests.induct) simp_all

lemma fetch_requests:
  "fst (fetchDocument net base docId)
     = [\<lparr>rq_method = GET, rq_url = base @ ''/api/v1/documents/'' @ docId\<rparr>]"
  "fst (fetchPersonas net base) = [\<lparr>rq_method = GET, rq_url = base @ ''/api/v1/personas/''\<rparr>]"
  "fst (fetchLatestComments net base docId)
     = [\<lparr>rq_method = GET,
         rq_url = base @ ''/api/v1/reviews/'' @ docId @ ''/reviews/latest/comments''\<rparr>]"
  "fst (fetchReviews net base docId)
     = [\<lparr>rq_method = GET, rq_url = base @ ''/api/v1/reviews/'' @ docId @ ''/reviews''\<rparr>]"
  "fst (fetchMetaComments net base docId rid)
     = [\<lparr>rq_method = GET, rq_url = meta_url base docId rid\<rparr>]"
  by (simp_all add: fetchDocument_def fetchPersonas_def fetchLatestComments_def
      fetchReviews_def fetchMetaComments_def Let_def)

lemma load_then_effects:
  "fst (load_then net base docId autoReview doc p existing reviews s)
     = (if existing \<noteq> [] \<and> \<not> autoReview
        then (case find (\<lambda>r. r_status r = ''completed'') reviews of
                None \<Rightarrow> []
              | Some r \<Rightarrow> [Http \<lparr>rq_method = GET, rq_url = meta_url base docId (r_id r)\<rparr>])
        else [])"
  by (simp add: load_then_def Let_def fetchMetaComments_def split: option.splits)

lemma load_then_posts:
  "posts (fst (load_then net base docId autoReview doc p existing reviews s)) = []"
  by (simp add: load_then_effects posts_def split: option.splits)

lemma load_page_posts: "posts (fst (load_page net settled base docId autoReview s)) = []"
proof -
  obtain q1 r1 where f1: "fetchDocument net base docId = (q1, r1)" by fastforce
  obtain q2 r2 where f2: "fetchPersonas net base = (q2, r2)" by fastforce
  obtain q3 r3 where f3: "fetchLatestComments net base docId = (q3, r3)" by fastforce
  obtain q4 r4 where f4: "fetchReviews net base docId = (q4, r4)" by fastforce
  have q: "filter (\<lambda>req. rq_method req = POST) (q1 @ q2 @ q3 @ q4) = []"
    using fetch_requests(1) [of net base docId] fetch_requests(2) [of net base]
      fetch_requests(3) [of net base docId] fetch_requests(4) [of net base docId]
    by (simp add: f1 f2 f3 f4)
  show ?thesis
    using q load_then_posts [of net base docId autoReview]
    by (simp add: load_page_def f1 f2 f3 f4 posts_def http_requests_append
        http_requests_map_Http Let_def split_beta split: sum.splits)
qed

lemma onEvent_posts:
  "posts (fst (onEvent net base docId ev s))
     = (case ev_review_id ev of
          None \<Rightarrow> []
        | Some rid \<Rightarrow>
            if ev_type ev = ''done'' \<and> rid \<noteq> []
            then [\<lparr>rq_method = POST, rq_url = meta_url base docId rid\<rparr>] else [])"
  by (simp add: onEvent_def Let_def triggerMetaSynthesis_def synthesizeMetaReview_def posts_def
      split: option.splits prod.splits)

lemma load_then_cached:
  assumes "existing \<noteq> []" and "\<not> autoReview"
      and "find (\<lambda>r. r_status r = ''completed'') reviews = Some r"
      and "n_meta net \<lparr>rq_method = GET, rq_url = meta_url base docId (r_id r)\<rparr>
             = Response True (Inr stored)"
      and "metaComments s = []"
  shows "metaComments (snd (load_then net base docId autoReview doc p existing reviews s)) = stored"
  using assms by (simp add: load_then_def fetchMetaComments_def Let_def)

lemma load_page_success:
  assumes "snd (fetchDocument net base docId) = Inr doc"
      and "snd (fetchPersonas net base) = Inr p"
      and "snd (fetchLatestComments net base docId) = Inr existing"
      and "snd (fetchReviews net base docId) = Inr reviews"
  shows "load_page net settled base docId autoReview s
     = (map Http (fst (fetchDocument net base docId) @ fst (fetchPersonas net base)
          @ fst (fetchLatestComments net base docId) @ fst (fetchReviews net base docId))
        @ fst (load_then net base docId autoReview doc p existing reviews s),
        snd (load_then net base docId autoReview doc p existing reviews s))"
  using assms by (simp add: load_page_def Let_def split_beta)

lemma served_reads: "filter (\<lambda>req. rq_method req = POST) reqs = [] \<Longrightarrow> served engine reqs sv = sv"
proof (induction reqs)
  case Nil
  show ?case by (simp add: served_def)
next
  case (Cons req reqs)
  from Cons.prems have g: "rq_method req = GET" and rest: "filter (\<lambda>req. rq_method req = POST) reqs = []"
    by (cases "rq_method req"; simp split: if_splits)+
  from Cons.IH [OF rest] g show ?case
    by (simp add: served_def serve_meta_def)
qed

lemma serve_meta_runs:
  "sv_runs (snd (serve_meta engine req sv))
     = (if rq_method req = POST then Suc (sv_runs sv) else sv_runs sv)"
  by (cases "rq_method req") (simp_all add: serve_meta_def Let_def)

lemma serve_meta_GET:
  "rq_method req = GET \<Longrightarrow>
   serve_meta engine req sv
     = (Response True (Inr (case sv_cache sv (rq_url req) of None \<Rightarrow> [] | Some ms \<Rightarrow> ms)), sv)"
  by (simp add: serve_meta_def)

lemma serve_meta_POST:
  "serve_meta engine \<lparr>rq_method = POST, rq_url = u\<rparr> sv
     = (Response True (Inr (engine u (sv_runs sv))),
        sv\<lparr>sv_cache := (sv_cache sv)(u \<mapsto> engine u (sv_runs sv)), sv_runs := Suc (sv_runs sv)\<rparr>)"
  by (simp add: serve_meta_def Let_def)

lemma network_of_others:
  "fetchDocument (network_of engine others sv) base docId = fetchDocument others base docId"
  "fetchPersonas (network_of engine others sv) base = fetchPersonas others base"
  "fetchLatestComments (network_of engine others sv) base docId
     = fetchLatestComments others base docId"
  "fetchReviews (network_of engine others sv) base docId = fetchReviews others base docId"
  by (simp_all add: network_of_def fetchDocument_def fetchPersonas_def fetchLatestComments_def
      fetchReviews_def)

text \<open>
  C7. Once a review has been synthesized on an explicit request (the POST of the meta
  endpoint), loading the page of its document reads the synthesis with a GET and shows
  the set that the synthesis stored; serving the requests of the load leaves the server's
  cache and its count of syntheses as they were, whatever the state of the server. A
  request recomputes exactly when it is a POST, and on the page the POST is sent by the
  event handler, for a \<^verbatim>\<open>done\<close> event that carries a review id, and never by the
  load.
\<close>

theorem cached_synthesis_is_read_not_recomputed:
  assumes "snd (fetchDocument others base docId) = Inr doc"
      and "snd (fetchPersonas others base) = Inr p"
      and "snd (fetchLatestComments others base docId) = Inr existing"
      and "snd (fetchReviews others base docId) = Inr reviews"
      and "existing \<noteq> []" and "\<not> autoReview"
      and "find (\<lambda>r. r_status r = ''completed'') reviews = Some r"
      and "metaComments s = []"
  shows "sv_cache (snd (serve_meta engine
             \<lparr>rq_method = POST, rq_url = meta_url base docId (r_id r)\<rparr> sv))
           (meta_url base docId (r_id r))
           = Some (engine (meta_url base docId (r_id r)) (sv_runs sv))
       \<and> metaComments (snd (load_page
             (network_of engine others (snd (serve_meta engine
                \<lparr>rq_method = POST, rq_url = meta_url base docId (r_id r)\<rparr> sv)))
             settled base docId autoReview s))
           = engine (meta_url base docId (r_id r)) (sv_runs sv)
       \<and> served engine
            (http_requests (fst (load_page (network_of engine others' sv') settled' base' docId'
               autoReview' s'))) sv'
           = sv'
       \<and> posts (fst (load_page (network_of engine others' sv') settled' base' docId'
               autoReview' s')) = []
       \<and> sv_runs (snd (serve_meta engine req sv'))
           = (if rq_method req = POST then Suc (sv_runs sv') else sv_runs sv')
       \<and> posts (fst (onEvent net base docId ev s'))
           = (case ev_review_id ev of
                None \<Rightarrow> []
              | Some rid \<Rightarrow>
                  if ev_type ev = ''done'' \<and> rid \<noteq> []
                  then [\<lparr>rq_method = POST, rq_url = meta_url base docId rid\<rparr>] else [])"
proof -
  let ?u = "meta_url base docId (r_id r)"
  let ?sv1 = "snd (serve_meta engine \<lparr>rq_method = POST, rq_url = ?u\<rparr> sv)"
  let ?net1 = "network_of engine others ?sv1"
  have a: "sv_cache ?sv1 ?u = Some (engine ?u (sv_runs sv))"
    by (simp add: serve_meta_POST)
  have g: "n_meta ?net1 \<lparr>rq_method = GET, rq_url = ?u\<rparr>
      = Response True (Inr (engine ?u (sv_runs sv)))"
    by (simp add: network_of_def serve_meta_GET a)
  have lp: "load_page ?net1 settled base docId autoReview s
      = (map Http (fst (fetchDocument ?net1 base docId) @ fst (fetchPersonas ?net1 base)
           @ fst (fetchLatestComments ?net1 base docId) @ fst (fetchReviews ?net1 base docId))
         @ fst (load_then ?net1 base docId autoReview doc p existing reviews s),
         snd (load_then ?net1 base docId autoReview doc p existing reviews s))"
    by (rule load_page_success) (simp_all only: network_of_others assms(1-4))
  have b: "metaComments (snd (load_page ?net1 settled base docId autoReview s))
      = engine ?u (sv_runs sv)"
    unfolding lp snd_conv by (rule load_then_cached [OF assms(5-7) g assms(8)])
  have c: "posts (fst (load_page (network_of engine others' sv') settled' base' docId'
               autoReview' s')) = []"
    by (rule load_page_posts)
  have d: "served engine
            (http_requests (fst (load_page (network_of engine others' sv') settled' base' docId'
               autoReview' s'))) sv' = sv'"
    using c by (intro served_reads) (simp add: posts_def)
  from a b c d show ?thesis
    by (simp only: serve_meta_runs onEvent_posts simp_thms)
qed

theorem cached_synthesis_is_read_not_recomputed_witness:
  "snd (fetchDocument serving [] ''doc1'') = Inr eight_lines
   \<and> snd (fetchPersonas serving []) = Inr []
   \<and> snd (fetchLatestComments serving [] ''doc1'') = Inr [comment_at ''c1'' ''security'' 2 2]
   \<and> snd (fetchReviews serving [] ''doc1'') = Inr [completed_review]
   \<and> find (\<lambda>r. r_status r = ''completed'') [completed_review] = Some completed_review
   \<and> metaComments initial_state = []
   \<and> sv_cache (snd (serve_meta sample_engine
         \<lparr>rq_method = POST, rq_url = meta_url [] ''doc1'' (r_id completed_review)\<rparr> fresh_server))
       (meta_url [] ''doc1'' (r_id completed_review))
       = Some [stored_meta]
   \<and> metaComments (snd (load_page
         (network_of sample_engine serving (snd (serve_meta sample_engine
            \<lparr>rq_method = POST, rq_url = meta_url [] ''doc1'' (r_id completed_review)\<rparr>
            fresh_server)))
         [2, 0, 1, 3] [] ''doc1'' False initial_state))
       = [stored_meta]
   \<and> served sample_engine
        (http_requests (fst (load_page
           (network_of sample_engine serving (snd (serve_meta sample_engine
              \<lparr>rq_method = POST, rq_url = meta_url [] ''doc1'' (r_id completed_review)\<rparr>
              fresh_server)))
           [2, 0, 1, 3] [] ''doc1'' False initial_state)))
        (snd (serve_meta sample_engine
           \<lparr>rq_method = POST, rq_url = meta_url [] ''doc1'' (r_id completed_review)\<rparr>
           fresh_server))
       = snd (serve_meta sample_engine
           \<lparr>rq_method = POST, rq_url = meta_url [] ''doc1'' (r_id completed_review)\<rparr>
           fresh_server)
   \<and> sv_runs (snd (serve_meta sample_engine
         \<lparr>rq_method = POST, rq_url = meta_url [] ''doc1'' (r_id completed_review)\<rparr>
         (snd (serve_meta sample_engine
            \<lparr>rq_method = POST, rq_url = meta_url [] ''doc1'' (r_id completed_review)\<rparr>
            fresh_server))))
       = 2"
proof -
  let ?post = "\<lparr>rq_method = POST, rq_url = meta_url [] ''doc1'' (r_id completed_review)\<rparr>"
  let ?sv1 = "snd (serve_meta sample_engine ?post fresh_server)"
  have h1: "snd (fetchDocument serving [] ''doc1'') = Inr eight_lines"
    by (simp add: fetchDocument_def serving_def)
  have h2: "snd (fetchPersonas serving []) = Inr []"
    by (simp add: fetchPersonas_def serving_def)
  have h3: "snd (fetchLatestComments serving [] ''doc1'') = Inr [comment_at ''c1'' ''security'' 2 2]"
    by (simp add: fetchLatestComments_def serving_def)
  have h4: "snd (fetchReviews serving [] ''doc1'') = Inr [completed_review]"
    by (simp add: fetchReviews_def serving_def)
  have h5: "[comment_at ''c1'' ''security'' 2 2] \<noteq> []" and h6: "\<not> False"
    by simp_all
  have h7: "find (\<lambda>r. r_status r = ''completed'') [completed_review] = Some completed_review"
    by (simp add: completed_review_def)
  have h8: "metaComments initial_state = []"
    by (simp add: initial_state_def)
  have e0: "sample_engine u (sv_runs fresh_server) = [stored_meta]" for u
    by (simp add: sample_engine_def fresh_server_def)
  have r1: "sv_runs ?sv1 = 1"
    by (simp add: serve_meta_POST fresh_server_def)
  note t = cached_synthesis_is_read_not_recomputed [OF h1 h2 h3 h4 h5 h6 h7 h8,
      where engine = sample_engine and sv = fresh_server and settled = "[2, 0, 1, 3]"
        and others' = serving and sv' = ?sv1 and settled' = "[2, 0, 1, 3]" and base' = "[]"
        and docId' = "''doc1''" and autoReview' = False and s' = initial_state
        and req = ?post and net = serving and ev = "done_event ''rev1'' 1"]
  from t have a: "sv_cache ?sv1 (meta_url [] ''doc1'' (r_id completed_review)) = Some [stored_meta]"
    by (simp only: e0)
  from t have b: "metaComments (snd (load_page (network_of sample_engine serving ?sv1)
         [2, 0, 1, 3] [] ''doc1'' False initial_state)) = [stored_meta]"
    by (simp only: e0)
  from t have c: "served sample_engine
        (http_requests (fst (load_page (network_of sample_engine serving ?sv1)
           [2, 0, 1, 3] [] ''doc1'' False initial_state))) ?sv1 = ?sv1"
    by (elim conjE)
  from t have d: "sv_runs (snd (serve_meta sample_engine ?post ?sv1)) = 2"
    by (simp add: r1)
  from h1 h2 h3 h4 h7 h8 a b c d show ?thesis
    by (intro conjI)
qed

section \<open>Properties of the meta-synthesis engine\<close>

lemma mset_concat_partition:
  "mset (concat (filter P xs)) + mset (concat (filter (\<lambda>x. \<not> P x) xs)) = mset (concat xs)"
  by (induction xs) simp_all

lemma mset_add_comment:
  "mset (concat (add_comment w similar cls c)) = add_mset c (mset (concat cls))"
proof -
  have "mset (concat (add_comment w similar cls c))
      = mset (concat (filter (\<lambda>cl. \<not> touches w similar c cl) cls))
        + mset (concat (filter (touches w similar c) cls)) + {#c#}"
    by (simp add: add_comment_def)
  also have "\<dots> = mset (concat cls) + {#c#}"
    using mset_concat_partition [of "touches w similar c" cls] by (simp add: add.commute)
  finally show ?thesis by simp
qed

lemma mset_foldl_add_comment:
  "mset (concat (foldl (add_comment w similar) cls cs)) = mset (concat cls) + mset cs"
  by (induction cs arbitrary: cls) (simp_all add: mset_add_comment)

lemma mset_clusters: "mset (concat (clusters w similar cs)) = mset cs"
  by (simp add: clusters_def mset_foldl_add_comment)

lemma add_comment_nonempty: "[] \<notin> set cls \<Longrightarrow> [] \<notin> set (add_comment w similar cls c)"
  by (simp add: add_comment_def)

lemma foldl_add_comment_nonempty:
  "[] \<notin> set cls \<Longrightarrow> [] \<notin> set (foldl (add_comment w similar) cls cs)"
  by (induction cs arbitrary: cls) (simp_all add: add_comment_nonempty)

lemma clusters_nonempty: "[] \<notin> set (clusters w similar cs)"
  by (simp add: clusters_def foldl_add_comment_nonempty)

lemma sources_reduce_cluster:
  "mc_sources (reduce_cluster judge ident now (i, cl)) = map source_of cl"
  by (simp add: reduce_cluster_def split: prod.splits)

lemma sources_synthesize:
  "map mc_sources (synthesize w similar judge ident now cs)
     = map (map source_of) (clusters w similar cs)"
proof -
  have "map mc_sources (map (reduce_cluster judge ident now) (enumerate n cls))
      = map (map source_of) cls" for n cls
    by (induction cls arbitrary: n) (simp_all add: sources_reduce_cluster)
  then show ?thesis by (simp add: synthesize_def)
qed

text \<open>
  C3. Synthesis preserves sources: the numbers of sources of the MetaComments add up to
  the number of input comments, no MetaComment has an empty source list, and the sources
  of all MetaComments together are the sources of the input comments, each as often as it
  occurs in the input: the sources of the MetaComments are the clusters, and the clusters
  hold every input comment exactly once.
\<close>

theorem synthesis_preserves_sources:
  "sum_list (map (\<lambda>mc. length (mc_sources mc)) (synthesize w similar judge ident now cs))
       = length cs
   \<and> (\<forall>mc \<in> set (synthesize w similar judge ident now cs). mc_sources mc \<noteq> [])
   \<and> mset (concat (map mc_sources (synthesize w similar judge ident now cs)))
       = mset (map source_of cs)
   \<and> map mc_sources (synthesize w similar judge ident now cs)
       = map (map source_of) (clusters w similar cs)
   \<and> mset (concat (clusters w similar cs)) = mset cs"
proof -
  let ?ms = "synthesize w similar judge ident now cs"
  note src = sources_synthesize [of w similar judge ident now cs]
  have cat: "concat (map mc_sources ?ms) = map source_of (concat (clusters w similar cs))"
    by (simp add: map_concat flip: src)
  have m: "mset (concat (map mc_sources ?ms)) = mset (map source_of cs)"
    unfolding cat by (simp add: mset_clusters)
  have "sum_list (map (\<lambda>mc. length (mc_sources mc)) ?ms)
      = length (concat (map mc_sources ?ms))"
    by (simp add: length_concat comp_def)
  also have "\<dots> = length cs"
    using m by (metis size_mset length_map)
  finally have l: "sum_list (map (\<lambda>mc. length (mc_sources mc)) ?ms) = length cs" .
  have n: "mc_sources mc \<noteq> []" if "mc \<in> set ?ms" for mc
  proof -
    from that have "mc_sources mc \<in> set (map mc_sources ?ms)" by simp
    then have "mc_sources mc \<in> set (map (map source_of) (clusters w similar cs))"
      by (simp only: src)
    then obtain cl where "cl \<in> set (clusters w similar cs)" and "mc_sources mc = map source_of cl"
      by auto
    with clusters_nonempty [of w similar cs] show ?thesis by auto
  qed
  from l n m src mset_clusters [of w similar cs] show ?thesis by blast
qed

theorem synthesis_preserves_sources_witness:
  "synthesize 0 (\<lambda>a b. True) sample_judge sample_ident ''2026-01-01T00:00:00Z''
       [comment_at ''c1'' ''P1'' 2 2, comment_at ''c2'' ''P2'' 2 3]
     = [\<lparr>mc_id = ''m'', mc_content = ''Reword the introduction.'', mc_start_line = 2,
         mc_end_line = 3,
         mc_sources = [source_of (comment_at ''c1'' ''P1'' 2 2),
                       source_of (comment_at ''c2'' ''P2'' 2 3)],
         mc_category = ''clarity'', mc_priority = ''medium'',
         mc_created_at = ''2026-01-01T00:00:00Z''\<rparr>]
   \<and> sum_list (map (\<lambda>mc. length (mc_sources mc))
         (synthesize 0 (\<lambda>a b. True) sample_judge sample_ident ''2026-01-01T00:00:00Z''
            [comment_at ''c1'' ''P1'' 2 2, comment_at ''c2'' ''P2'' 2 3])) = 2
   \<and> map (\<lambda>mc. length (mc_sources mc))
         (synthesize 0 (\<lambda>a b. True) sample_judge sample_ident ''2026-01-01T00:00:00Z''
            [comment_at ''c1'' ''P1'' 2 2, comment_at ''c2'' ''P2'' 9 9]) = [1, 1]"
proof -
  have a: "synthesize 0 (\<lambda>a b. True) sample_judge sample_ident ''2026-01-01T00:00:00Z''
       [comment_at ''c1'' ''P1'' 2 2, comment_at ''c2'' ''P2'' 2 3]
     = [\<lparr>mc_id = ''m'', mc_content = ''Reword the introduction.'', mc_start_line = 2,
         mc_end_line = 3,
         mc_sources = [source_of (comment_at ''c1'' ''P1'' 2 2),
                       source_of (comment_at ''c2'' ''P2'' 2 3)],
         mc_category = ''clarity'', mc_priority = ''medium'',
         mc_created_at = ''2026-01-01T00:00:00Z''\<rparr>]"
    by (simp add: synthesize_def clusters_def add_comment_def touches_def related_def near_def
        reduce_cluster_def sample_judge_def sample_ident_def comment_at_def)
  have b: "map (\<lambda>mc. length (mc_sources mc))
         (synthesize 0 (\<lambda>a b. True) sample_judge sample_ident ''2026-01-01T00:00:00Z''
            [comment_at ''c1'' ''P1'' 2 2, comment_at ''c2'' ''P2'' 9 9]) = [1, 1]"
    by (simp add: synthesize_def clusters_def add_comment_def touches_def related_def near_def
        reduce_cluster_def sample_judge_def sample_ident_def comment_at_def)
  from synthesis_preserves_sources [of 0 "\<lambda>a b. True" sample_judge sample_ident
      "''2026-01-01T00:00:00Z''" "[comment_at ''c1'' ''P1'' 2 2, comment_at ''c2'' ''P2'' 2 3]"]
  have c: "sum_list (map (\<lambda>mc. length (mc_sources mc))
         (synthesize 0 (\<lambda>a b. True) sample_judge sample_ident ''2026-01-01T00:00:00Z''
            [comment_at ''c1'' ''P1'' 2 2, comment_at ''c2'' ''P2'' 2 3])) = 2"
    by simp
  from a b c show ?thesis by (intro conjI)
qed

end
